theory Spec2Isabelle
  imports Main "HOL-Library.Word"
begin

section \<open>JetStream control plane of the NATS server: data model\<close>

text \<open>
  The development follows \<^verbatim>\<open>server/jetstream.go\<close>. Go's \<^verbatim>\<open>int64\<close> is a 64-bit
  word: \<open>+\<close>, \<open>-\<close> and \<open>*\<close> wrap around, and the comparisons of the source are the
  signed ones (\<open><s\<close>, \<open>\<le>s\<close>). Go's \<^verbatim>\<open>int\<close> is taken at its width on the 64-bit
  platforms the server is built for, so it is a 64-bit word too. Record fields keep
  the names of the struct fields, with a short prefix where two structs share a name.
\<close>

type_synonym int64 = "64 word"
type_synonym go_int = "64 word"
type_synonym uint32 = "32 word"

text \<open>\<^verbatim>\<open>JetStreamConfig\<close>: the server's configuration.\<close>

record JetStreamConfig =
  cfg_MaxMemory :: int64
  cfg_MaxStore :: int64
  cfg_StoreDir :: string

text \<open>\<^verbatim>\<open>JetStreamAccountLimits\<close>: the quota of one account.\<close>

record JetStreamAccountLimits =
  MaxMemory :: int64
  MaxStore :: int64
  MaxStreams :: go_int
  MaxConsumers :: go_int

text \<open>
  The errors this file returns, one constructor for each message or error value.
  \<open>ErrCollaborator\<close> carries an error handed up from code outside this file.
\<close>

datatype error =
    ErrAccountNotRegistered
  | ErrJetStreamNotEnabled
  | ErrJetStreamNotEnabledForAccount
  | ErrSystemAccountForbidden
  | ErrAlreadyEnabledForAccount
  | ErrInsufficientMemory
  | ErrInsufficientStorage
  | ErrMaxStreamsReached
  | ErrMaxConsumersExceedsLimit
  | ErrServiceImports
  | ErrCreateStreamsDir
  | ErrTemplateNotFound
  | ErrJetStreamStreamNotFound
  | ErrCollaborator string

section \<open>Names\<close>

text \<open>
  \<^verbatim>\<open>isValidName\<close>: not empty and \<^verbatim>\<open>!strings.ContainsAny(name, ".*>")\<close>. The three
  characters are ASCII, so the test on bytes is the test on runes.
\<close>

definition isValidName :: "string \<Rightarrow> bool" where
  "isValidName name =
     (if name = [] then False
      else \<not> list_ex (\<lambda>c. c \<in> set ''.*>'') name)"

text \<open>\<^verbatim>\<open>CanonicalName\<close>: \<^verbatim>\<open>strings.ReplaceAll(name, ".", "_")\<close>.\<close>

definition CanonicalName :: "string \<Rightarrow> string" where
  "CanonicalName name = map (\<lambda>c. if c = CHR ''.'' then CHR ''_'' else c) name"

text \<open>
  The tokens of a subject are the pieces between its \<open>.\<close> separators, as
  \<^verbatim>\<open>strings.Split(subject, ".")\<close> returns them: the empty subject has the one
  token \<open>[]\<close>. \<open>tokens_from tok s\<close> continues a token that already holds \<open>tok\<close>.
\<close>

fun tokens_from :: "string \<Rightarrow> string \<Rightarrow> string list" where
  "tokens_from tok [] = [tok]"
| "tokens_from tok (c # cs) =
     (if c = CHR ''.'' then tok # tokens_from [] cs else tokens_from (tok @ [c]) cs)"

definition tokens :: "string \<Rightarrow> string list" where
  "tokens s = tokens_from [] s"

section \<open>The resource ledger\<close>

text \<open>
  \<^verbatim>\<open>jetStream\<close>: the server-wide accounting. \<open>accounts\<close> maps an account to the
  address of its \<^verbatim>\<open>jsAccount\<close> object (the Go map holds pointers).
\<close>

type_synonym account_ref = nat
type_synonym jsa_ref = nat

record jetStream =
  config :: JetStreamConfig
  accounts :: "account_ref \<rightharpoonup> jsa_ref"
  memReserved :: int64
  storeReserved :: int64

text \<open>
  \<^verbatim>\<open>sufficientResources\<close>: \<open>None\<close> is the \<^verbatim>\<open>nil\<close> error. The limits argument is a
  pointer, \<open>None\<close> when it is \<^verbatim>\<open>nil\<close>.
\<close>

definition sufficientResources ::
  "jetStream \<Rightarrow> JetStreamAccountLimits option \<Rightarrow> error option" where
  "sufficientResources js lim =
     (case lim of
        None \<Rightarrow> None
      | Some l \<Rightarrow>
          if cfg_MaxMemory (config js) <s memReserved js + MaxMemory l
          then Some ErrInsufficientMemory
          else if cfg_MaxStore (config js) <s storeReserved js + MaxStore l
          then Some ErrInsufficientStorage
          else None)"


text \<open>
  \<^verbatim>\<open>reserveResources\<close> and \<^verbatim>\<open>releaseResources\<close> always return \<^verbatim>\<open>nil\<close>, so the model
  returns the ledger only.
\<close>

definition reserveResources ::
  "jetStream \<Rightarrow> JetStreamAccountLimits option \<Rightarrow> jetStream" where
  "reserveResources js lim =
     (case lim of
        None \<Rightarrow> js
      | Some l \<Rightarrow>
          let js1 = (if 0 <s MaxMemory l
                     then js\<lparr>memReserved := memReserved js + MaxMemory l\<rparr> else js)
          in if 0 <s MaxStore l
             then js1\<lparr>storeReserved := storeReserved js1 + MaxStore l\<rparr> else js1)"

definition releaseResources ::
  "jetStream \<Rightarrow> JetStreamAccountLimits option \<Rightarrow> jetStream" where
  "releaseResources js lim =
     (case lim of
        None \<Rightarrow> js
      | Some l \<Rightarrow>
          let js1 = (if 0 <s MaxMemory l
                     then js\<lparr>memReserved := memReserved js - MaxMemory l\<rparr> else js)
          in if 0 <s MaxStore l
             then js1\<lparr>storeReserved := storeReserved js1 - MaxStore l\<rparr> else js1)"

definition clearResources :: "jetStream \<Rightarrow> jetStream" where
  "clearResources js = js\<lparr>memReserved := 0, storeReserved := 0\<rparr>"

text \<open>\<^verbatim>\<open>dynamicAccountLimits\<close>: the whole server quota, no cap on streams or consumers.\<close>

definition dynamicAccountLimits :: "jetStream \<Rightarrow> JetStreamAccountLimits" where
  "dynamicAccountLimits js =
     \<lparr>MaxMemory = cfg_MaxMemory (config js), MaxStore = cfg_MaxStore (config js),
      MaxStreams = - 1, MaxConsumers = - 1\<rparr>"

text \<open>\<^verbatim>\<open>diffCheckedLimits\<close>: the two fields it does not name are Go's zero value.\<close>

definition diffCheckedLimits ::
  "JetStreamAccountLimits \<Rightarrow> JetStreamAccountLimits \<Rightarrow> JetStreamAccountLimits" where
  "diffCheckedLimits a b =
     \<lparr>MaxMemory = MaxMemory b - MaxMemory a, MaxStore = MaxStore b - MaxStore a,
      MaxStreams = 0, MaxConsumers = 0\<rparr>"

section \<open>Streams, templates and the account state\<close>

text \<open>
  \<^verbatim>\<open>StorageType\<close> is declared outside this file. The file names its two constants
  and switches on them with no default case, so every other value of the underlying
  integer type is kept as \<open>OtherStorage\<close>.
\<close>

datatype StorageType = FileStorage | MemoryStorage | OtherStorage

text \<open>
  \<^verbatim>\<open>StreamConfig\<close> is declared outside this file too; these are the fields the file
  reads or writes.
\<close>

record StreamConfig =
  sc_Name :: string
  sc_Subjects :: "string list"
  sc_MaxConsumers :: go_int
  sc_MaxBytes :: int64
  sc_Storage :: StorageType
  sc_Replicas :: go_int
  sc_Template :: string

text \<open>A \<^verbatim>\<open>Stream\<close> of the storage engine, as far as this file looks into it.\<close>

record Stream =
  stream_config :: StreamConfig

record StreamTemplateConfig =
  tc_Name :: string
  tc_Config :: StreamConfig
  tc_MaxStreams :: uint32

text \<open>
  \<^verbatim>\<open>StreamTemplate\<close> embeds its \<^verbatim>\<open>StreamTemplateConfig\<close>. The internal client \<^verbatim>\<open>tc\<close>
  and the locks carry no data of the model; the back pointer \<^verbatim>\<open>jsa\<close> is part of the
  dispatch state below.
\<close>

record StreamTemplate =
  st_config :: StreamTemplateConfig
  st_streams :: "string list"

text \<open>
  \<^verbatim>\<open>jsAccount\<close>. \<open>templates\<close> is \<open>None\<close> while the Go map is \<^verbatim>\<open>nil\<close>. The fields
  \<^verbatim>\<open>js\<close> (there is one ledger), \<^verbatim>\<open>storeDir\<close> and \<^verbatim>\<open>store\<close> are not read by the
  functions modelled here.
\<close>

record jsAccount =
  account :: account_ref
  limits :: JetStreamAccountLimits
  jsa_memReserved :: int64
  memUsed :: int64
  jsa_storeReserved :: int64
  storeUsed :: int64
  streams :: "string \<rightharpoonup> Stream"
  templates :: "(string \<rightharpoonup> StreamTemplate) option"

section \<open>Admission of a stream\<close>



text \<open>\<^verbatim>\<open>updateUsage\<close> and \<^verbatim>\<open>limitsExceeded\<close>.\<close>

definition updateUsage :: "jsAccount \<Rightarrow> StorageType \<Rightarrow> int64 \<Rightarrow> jsAccount" where
  "updateUsage jsa storeType delta =
     (if storeType = MemoryStorage then jsa\<lparr>memUsed := memUsed jsa + delta\<rparr>
      else jsa\<lparr>storeUsed := storeUsed jsa + delta\<rparr>)"

definition limitsExceeded :: "jsAccount \<Rightarrow> StorageType \<Rightarrow> bool" where
  "limitsExceeded jsa storeType =
     (if storeType = MemoryStorage
      then 0 <s MaxMemory (limits jsa) \<and> MaxMemory (limits jsa) <s memUsed jsa
      else 0 <s MaxStore (limits jsa) \<and> MaxStore (limits jsa) <s storeUsed jsa)"


section \<open>The server, its accounts and the three account operations\<close>

text \<open>
  The part of \<^verbatim>\<open>Server\<close> and \<^verbatim>\<open>Account\<close> the account operations use. \<open>srv_js\<close> is
  \<^verbatim>\<open>s.js\<close> (\<open>None\<close> for \<^verbatim>\<open>nil\<close>), \<open>sysAccount\<close> is \<^verbatim>\<open>s.SystemAccount()\<close>,
  \<open>a_srv s a\<close> says that \<^verbatim>\<open>a.srv\<close> is this server and not \<^verbatim>\<open>nil\<close>, \<open>a_js\<close> is the
  pointer \<^verbatim>\<open>a.js\<close> of each account. \<^verbatim>\<open>a.js\<close> and \<^verbatim>\<open>js.accounts[a]\<close> point to one
  shared \<^verbatim>\<open>jsAccount\<close>, so the objects live in the store \<open>jsas\<close> under their
  addresses; \<open>next_jsa\<close> is the address the next \<^verbatim>\<open>&jsAccount{...}\<close> gets.
\<close>

record Server =
  srv_js :: "jetStream option"
  sysAccount :: "account_ref option"
  a_srv :: "account_ref \<Rightarrow> bool"
  a_js :: "account_ref \<rightharpoonup> jsa_ref"
  jsas :: "jsa_ref \<Rightarrow> jsAccount"
  next_jsa :: jsa_ref

text \<open>
  What \<^verbatim>\<open>EnableJetStream\<close> does after the reservation is work of its collaborators:
  the service imports, the streams directory, and the recovery of templates, streams
  and consumers from disk. Their outcome is an input of the model: whether the imports
  or the directory fail, and the account object as the recovery leaves it. The
  recovery writes the streams, the templates and the usage of the account; \<open>account\<close>
  and \<open>limits\<close> are written by the operations of this section only, so the model keeps
  them as \<^verbatim>\<open>EnableJetStream\<close> set them.
\<close>

record enable_tail =
  imports_fail :: bool
  mkdir_fail :: bool
  recovered :: jsAccount

definition EnableJetStream ::
  "enable_tail \<Rightarrow> account_ref \<Rightarrow> JetStreamAccountLimits option \<Rightarrow> Server
     \<Rightarrow> error option \<times> Server" where
  "EnableJetStream tail a lim s =
     (if \<not> a_srv s a then (Some ErrAccountNotRegistered, s)
      else case srv_js s of
        None \<Rightarrow> (Some ErrJetStreamNotEnabled, s)
      | Some js \<Rightarrow>
          if sysAccount s = Some a then (Some ErrSystemAccountForbidden, s)
          else
            let l = (case lim of None \<Rightarrow> dynamicAccountLimits js | Some l \<Rightarrow> l) in
            if accounts js a \<noteq> None then (Some ErrAlreadyEnabledForAccount, s)
            else case sufficientResources js (Some l) of
              Some err \<Rightarrow> (Some err, s)
            | None \<Rightarrow>
                let p = next_jsa s;
                    jsa = \<lparr>account = a, limits = l, jsa_memReserved = 0, memUsed = 0,
                           jsa_storeReserved = 0, storeUsed = 0, streams = Map.empty,
                           templates = None\<rparr>;
                    js1 = reserveResources (js\<lparr>accounts := (accounts js)(a \<mapsto> p)\<rparr>) (Some l);
                    s1 = s\<lparr>srv_js := Some js1, a_js := (a_js s)(a \<mapsto> p),
                           jsas := (jsas s)(p := jsa), next_jsa := Suc p\<rparr>
                in if imports_fail tail then (Some ErrServiceImports, s1)
                   else if mkdir_fail tail then (Some ErrCreateStreamsDir, s1)
                   else (None, s1\<lparr>jsas := (jsas s1)
                                  (p := (recovered tail)\<lparr>account := a, limits := l\<rparr>)\<rparr>))"

definition UpdateJetStreamLimits ::
  "account_ref \<Rightarrow> JetStreamAccountLimits option \<Rightarrow> Server \<Rightarrow> error option \<times> Server" where
  "UpdateJetStreamLimits a lim s =
     (if \<not> a_srv s a then (Some ErrAccountNotRegistered, s)
      else case srv_js s of
        None \<Rightarrow> (Some ErrJetStreamNotEnabled, s)
      | Some js \<Rightarrow>
          (case a_js s a of
             None \<Rightarrow> (Some ErrJetStreamNotEnabledForAccount, s)
           | Some p \<Rightarrow>
               let l = (case lim of None \<Rightarrow> dynamicAccountLimits js | Some l \<Rightarrow> l);
                   jsa = jsas s p;
                   dl = diffCheckedLimits (limits jsa) l;
                   jsaLimits = limits jsa
               in case sufficientResources js (Some dl) of
                    Some err \<Rightarrow> (Some err, s)
                  | None \<Rightarrow>
                      let js1 = reserveResources (releaseResources js (Some jsaLimits)) (Some l)
                      in (None, s\<lparr>srv_js := Some js1,
                                   jsas := (jsas s)(p := jsa\<lparr>limits := l\<rparr>)\<rparr>)))"

text \<open>\<^verbatim>\<open>lookupAccount\<close>: a missing key reads as the \<^verbatim>\<open>nil\<close> pointer.\<close>

definition lookupAccount :: "jetStream \<Rightarrow> account_ref \<Rightarrow> jsa_ref option" where
  "lookupAccount js a = accounts js a"

text \<open>
  \<^verbatim>\<open>jetStream.disableJetStream\<close>. The key it deletes is \<^verbatim>\<open>jsa.account\<close>.
  \<^verbatim>\<open>jsa.delete()\<close> sets the templates map to \<^verbatim>\<open>nil\<close> and asks the storage engine to
  stop the streams.
\<close>

definition disableJetStream ::
  "jsa_ref option \<Rightarrow> jetStream \<Rightarrow> Server \<Rightarrow> error option \<times> Server" where
  "disableJetStream jsa js s =
     (case jsa of
        None \<Rightarrow> (Some ErrJetStreamNotEnabledForAccount, s)
      | Some p \<Rightarrow>
          let js1 = js\<lparr>accounts := (accounts js)(account (jsas s p) := None)\<rparr>;
              js2 = releaseResources js1 (Some (limits (jsas s p)))
          in (None, s\<lparr>srv_js := Some js2,
                       jsas := (jsas s)(p := (jsas s p)\<lparr>templates := None\<rparr>)\<rparr>))"

text \<open>\<^verbatim>\<open>Account.DisableJetStream\<close> clears \<^verbatim>\<open>a.js\<close> before any check.\<close>

definition DisableJetStream :: "account_ref \<Rightarrow> Server \<Rightarrow> error option \<times> Server" where
  "DisableJetStream a s =
     (let s0 = s\<lparr>a_js := (a_js s)(a := None)\<rparr> in
      if \<not> a_srv s a then (Some ErrAccountNotRegistered, s0)
      else case srv_js s0 of
        None \<Rightarrow> (Some ErrJetStreamNotEnabled, s0)
      | Some js \<Rightarrow> disableJetStream (lookupAccount js a) js s0)"

text \<open>A call of one of the three operations, and a sequence of calls run in order.\<close>

datatype op =
    Enable enable_tail account_ref "JetStreamAccountLimits option"
  | Update account_ref "JetStreamAccountLimits option"
  | Disable account_ref

fun step :: "Server \<Rightarrow> op \<Rightarrow> error option \<times> Server" where
  "step s (Enable tail a lim) = EnableJetStream tail a lim s"
| "step s (Update a lim) = UpdateJetStreamLimits a lim s"
| "step s (Disable a) = DisableJetStream a s"

fun run :: "Server \<Rightarrow> op list \<Rightarrow> Server" where
  "run s [] = s"
| "run s (x # xs) = run (snd (step s x)) xs"

text \<open>Every call of the sequence returns \<^verbatim>\<open>nil\<close>.\<close>

fun successful :: "Server \<Rightarrow> op list \<Rightarrow> bool" where
  "successful s [] = True"
| "successful s (x # xs) = (fst (step s x) = None \<and> successful (snd (step s x)) xs)"

text \<open>
  A freshly enabled server: \<^verbatim>\<open>Server.EnableJetStream\<close> has just built the ledger
  \<^verbatim>\<open>&jetStream{srv: s, config: cfg, accounts: make(...)}\<close>, whose counters are zero,
  and no account has JetStream yet.
\<close>

definition fresh_server :: "Server \<Rightarrow> bool" where
  "fresh_server s =
     (case srv_js s of
        None \<Rightarrow> False
      | Some js \<Rightarrow> accounts js = Map.empty \<and> memReserved js = 0 \<and> storeReserved js = 0
                   \<and> a_js s = Map.empty)"

text \<open>
  The limits of an enabled account, and the part of a limit the ledger counts:
  \<^verbatim>\<open>reserveResources\<close> and \<^verbatim>\<open>releaseResources\<close> move a component only if it is
  positive.
\<close>

definition enabled_limits :: "Server \<Rightarrow> jetStream \<Rightarrow> account_ref \<Rightarrow> JetStreamAccountLimits" where
  "enabled_limits s js a = limits (jsas s (the (accounts js a)))"

definition counted :: "int64 \<Rightarrow> int64" where
  "counted x = (if 0 <s x then x else 0)"


text \<open>
  The total of one component of the limits over the enabled accounts, the keys of
  \<^verbatim>\<open>js.accounts\<close>; \<open>f\<close> picks the component.
\<close>

definition limits_total ::
  "(JetStreamAccountLimits \<Rightarrow> int64) \<Rightarrow> Server \<Rightarrow> jetStream \<Rightarrow> int64" where
  "limits_total f s js = (\<Sum>a\<in>dom (accounts js). f (enabled_limits s js a))"

text \<open>
  What the three operations keep true of a server that has a ledger: \<^verbatim>\<open>a.js\<close> and
  \<^verbatim>\<open>js.accounts[a]\<close> are the same pointer, an enabled account is registered and its
  object knows it, and the counters hold the counted parts of the limits.
\<close>

definition ledger_inv :: "Server \<Rightarrow> bool" where
  "ledger_inv s =
     (case srv_js s of
        None \<Rightarrow> False
      | Some js \<Rightarrow>
          a_js s = accounts js \<and> finite (dom (accounts js))
          \<and> (\<forall>a p. accounts js a = Some p \<longrightarrow>
                 p < next_jsa s \<and> account (jsas s p) = a \<and> a_srv s a)
          \<and> memReserved js = limits_total (\<lambda>l. counted (MaxMemory l)) s js
          \<and> storeReserved js = limits_total (\<lambda>l. counted (MaxStore l)) s js)"

section \<open>Dispatch of a message on a template subject\<close>

text \<open>
  The state \<^verbatim>\<open>processInboundTemplateMsg\<close> works on: the template \<^verbatim>\<open>t\<close>, the account
  object \<^verbatim>\<open>t.jsa\<close> points to (\<open>None\<close> for \<^verbatim>\<open>nil\<close>), and whether the account's own
  pointer \<^verbatim>\<open>a.js\<close>, which \<^verbatim>\<open>LookupStream\<close> reads, is set; it points to the same object.
\<close>

record tmpl_world =
  tw_t :: StreamTemplate
  tw_jsa :: "jsAccount option"
  tw_a_js :: bool

text \<open>
  What the dispatch asks of its collaborators, in order. A call of \<^verbatim>\<open>AddStream\<close> is
  recorded with the configuration it is given and the state it is made in.
\<close>

datatype effect =
    Warnf_at_limit account_ref string
  | Warnf_could_not_create account_ref string
  | Call_AddStream StreamConfig tmpl_world
  | Call_processInboundJetStreamMsg Stream string string string

text \<open>
  \<^verbatim>\<open>Account.AddStream\<close> and \<^verbatim>\<open>Stream.processInboundJetStreamMsg\<close> belong to the
  storage engine. They are parameters: any function of the state will do.
\<close>

record engine =
  AddStream :: "StreamConfig \<Rightarrow> tmpl_world \<Rightarrow> (error + Stream) \<times> tmpl_world"
  processInboundJetStreamMsg ::
    "Stream \<Rightarrow> string \<Rightarrow> string \<Rightarrow> string \<Rightarrow> tmpl_world \<Rightarrow> tmpl_world"

text \<open>\<^verbatim>\<open>Account.LookupStream\<close>.\<close>

definition LookupStream :: "tmpl_world \<Rightarrow> string \<Rightarrow> error + Stream" where
  "LookupStream w name =
     (if \<not> tw_a_js w then Inl ErrJetStreamNotEnabled
      else case tw_jsa w of
        None \<Rightarrow> Inl ErrJetStreamNotEnabled
      | Some jsa \<Rightarrow>
          (case streams jsa name of
             None \<Rightarrow> Inl ErrJetStreamStreamNotFound
           | Some mset \<Rightarrow> Inr mset))"

text \<open>\<^verbatim>\<open>validateStreams\<close> keeps the names that still resolve.\<close>

definition validateStreams :: "tmpl_world \<Rightarrow> tmpl_world" where
  "validateStreams w =
     w\<lparr>tw_t := (tw_t w)\<lparr>st_streams :=
          filter (\<lambda>sname. case LookupStream w sname of Inl err \<Rightarrow> False | Inr mset \<Rightarrow> True)
                 (st_streams (tw_t w))\<rparr>\<rparr>"

text \<open>
  \<^verbatim>\<open>processInboundTemplateMsg\<close>. \<^verbatim>\<open>int(t.MaxStreams)\<close> is the unsigned value of the
  \<^verbatim>\<open>uint32\<close>. The result is the state and the effects in the order they happen.
\<close>

definition processInboundTemplateMsg ::
  "engine \<Rightarrow> tmpl_world \<Rightarrow> string \<Rightarrow> string \<Rightarrow> string \<Rightarrow> tmpl_world \<times> effect list" where
  "processInboundTemplateMsg eng w subject reply msg =
     (case tw_jsa w of
        None \<Rightarrow> (w, [])
      | Some jsa \<Rightarrow>
          let cn = CanonicalName subject in
          if streams jsa cn \<noteq> None then (w, [])
          else
            let acc = account jsa;
                t = tw_t w;
                cfg = (tc_Config (st_config t))\<lparr>sc_Template := tc_Name (st_config t)\<rparr>;
                atLimit = (unat (tc_MaxStreams (st_config t)) \<le> length (st_streams t));
                w1 = (if \<not> atLimit then w\<lparr>tw_t := t\<lparr>st_streams := st_streams t @ [cn]\<rparr>\<rparr>
                      else w)
            in if atLimit then (w1, [Warnf_at_limit acc subject])
               else
                 let cfg1 = cfg\<lparr>sc_Name := cn, sc_Subjects := [subject]\<rparr> in
                 case AddStream eng cfg1 w1 of
                   (Inl err, w2) \<Rightarrow>
                     (validateStreams w2,
                      [Call_AddStream cfg1 w1, Warnf_could_not_create acc subject])
                 | (Inr mset, w2) \<Rightarrow>
                     (processInboundJetStreamMsg eng mset subject reply msg w2,
                      [Call_AddStream cfg1 w1,
                       Call_processInboundJetStreamMsg mset subject reply msg]))"

text \<open>Messages arriving one after the other: subject, reply and payload of each.\<close>

fun dispatch_all ::
  "engine \<Rightarrow> tmpl_world \<Rightarrow> (string \<times> string \<times> string) list \<Rightarrow> tmpl_world \<times> effect list" where
  "dispatch_all eng w [] = (w, [])"
| "dispatch_all eng w ((subject, reply, msg) # ms) =
     (let (w1, es1) = processInboundTemplateMsg eng w subject reply msg;
          (w2, es2) = dispatch_all eng w1 ms
      in (w2, es1 @ es2))"

fun is_Call_AddStream :: "effect \<Rightarrow> bool" where
  "is_Call_AddStream (Call_AddStream cfg w) = True"
| "is_Call_AddStream e = False"

fun is_delivery :: "effect \<Rightarrow> bool" where
  "is_delivery (Call_processInboundJetStreamMsg mset subject reply msg) = True"
| "is_delivery e = False"

fun is_Warnf_at_limit :: "effect \<Rightarrow> bool" where
  "is_Warnf_at_limit (Warnf_at_limit acc subject) = True"
| "is_Warnf_at_limit e = False"


section \<open>Recovery of templates and streams from disk\<close>

text \<open>
  A path of the store directory: absent (\<^verbatim>\<open>os.IsNotExist\<close>), present but not readable
  (\<^verbatim>\<open>ioutil.ReadFile\<close> fails), or a file with its bytes.
\<close>

datatype disk_file = NotExist | Unreadable | Content string

text \<open>
  Modelled from the spec: the constants \<^verbatim>\<open>JetStreamMetaFile\<close> and
  \<^verbatim>\<open>JetStreamMetaFileSum\<close> are declared outside this file; the on-disk layout of the
  spec names the two files \<^verbatim>\<open>meta.inf\<close> and \<^verbatim>\<open>meta.sum\<close>.
\<close>

definition JetStreamMetaFile :: string where
  "JetStreamMetaFile = ''meta.inf''"

definition JetStreamMetaFileSum :: string where
  "JetStreamMetaFileSum = ''meta.sum''"

text \<open>
  \<^verbatim>\<open>path.Join\<close> on a clean directory path and the base names below it, where its
  cleaning changes nothing: the elements joined by slashes.
\<close>

fun path_Join :: "string list \<Rightarrow> string" where
  "path_Join [] = []"
| "path_Join [x] = x"
| "path_Join (x # y # ys) = x @ ''/'' @ path_Join (y # ys)"

text \<open>\<^verbatim>\<open>hex.EncodeToString\<close>: two lowercase digits for each byte.\<close>

definition hexdigit :: "nat \<Rightarrow> char" where
  "hexdigit n = ''0123456789abcdef'' ! (n mod 16)"

definition hex_EncodeToString :: "string \<Rightarrow> string" where
  "hex_EncodeToString bs =
     concat (map (\<lambda>b. [hexdigit ((of_char b :: nat) div 16), hexdigit (of_char b :: nat)]) bs)"

text \<open>
  The state of a \<^verbatim>\<open>highwayhash\<close> hasher: its key and the bytes written since the last
  reset. \<^verbatim>\<open>highwayhash.New64\<close> fails on a key that is not 32 bytes long only; its key
  here is the \<^verbatim>\<open>[32]byte\<close> array \<^verbatim>\<open>sha256.Sum256\<close> returns, so that return is never taken.
\<close>

record hasher =
  hh_key :: string
  hh_written :: string

definition highwayhash_New64 :: "string \<Rightarrow> hasher" where
  "highwayhash_New64 key = \<lparr>hh_key = key, hh_written = []\<rparr>"

definition hh_Reset :: "hasher \<Rightarrow> hasher" where
  "hh_Reset hh = hh\<lparr>hh_written := []\<rparr>"

definition hh_Write :: "hasher \<Rightarrow> string \<Rightarrow> hasher" where
  "hh_Write hh buf = hh\<lparr>hh_written := hh_written hh @ buf\<rparr>"

text \<open>
  The state the recovery works on: the files under the store directory and the account
  object \<^verbatim>\<open>jsa\<close> that \<^verbatim>\<open>EnableJetStream\<close> has just created.
\<close>

record disk_world =
  w_files :: "string \<Rightarrow> disk_file"
  w_jsa :: jsAccount

text \<open>
  \<^verbatim>\<open>FileStreamInfo\<close> (declared outside this file): the creation time, \<open>0\<close> for the zero
  time, and the embedded \<^verbatim>\<open>StreamConfig\<close>. The decoded template configuration holds
  a pointer to its \<^verbatim>\<open>StreamConfig\<close>, \<^verbatim>\<open>nil\<close> when the JSON has none.
\<close>

record FileStreamInfo =
  fsi_Created :: nat
  fsi_StreamConfig :: StreamConfig

record decoded_template =
  dt_Name :: string
  dt_Config :: "StreamConfig option"
  dt_MaxStreams :: uint32

text \<open>
  The collaborators of the recovery, as parameters: the two hash functions
  (\<open>highwayhash_Sum64 key bytes\<close> is the 8-byte sum of a hasher with that key that was
  written those bytes), the JSON decoder (\<open>None\<close> when \<^verbatim>\<open>json.Unmarshal\<close> fails),
  \<^verbatim>\<open>AddStreamTemplate\<close> and \<^verbatim>\<open>AddStream\<close>, and \<open>restore_stream\<close> for what follows a
  recreated stream: its creation time and the walk over its consumers.
\<close>

record recovery =
  sha256_Sum256 :: "string \<Rightarrow> string"
  highwayhash_Sum64 :: "string \<Rightarrow> string \<Rightarrow> string"
  json_Unmarshal_template :: "string \<Rightarrow> decoded_template option"
  json_Unmarshal_stream :: "string \<Rightarrow> FileStreamInfo option"
  AddStreamTemplate :: "StreamTemplateConfig \<Rightarrow> disk_world \<Rightarrow> error option \<times> disk_world"
  rec_AddStream :: "StreamConfig \<Rightarrow> disk_world \<Rightarrow> (error + Stream) \<times> disk_world"
  restore_stream :: "string \<Rightarrow> FileStreamInfo \<Rightarrow> Stream \<Rightarrow> disk_world \<Rightarrow> disk_world"

definition hh_Sum :: "recovery \<Rightarrow> hasher \<Rightarrow> string" where
  "hh_Sum R hh = highwayhash_Sum64 R (hh_key hh) (hh_written hh)"

datatype warning =
    Warn_template_metafile_read string
  | Warn_template_checksum_missing string
  | Warn_template_checksum_read string
  | Warn_template_checksum_mismatch string string
  | Warn_template_unmarshal
  | Warn_template_recreate string error
  | Warn_stream_metafile_missing string
  | Warn_stream_metafile_read string
  | Warn_stream_checksum_missing string
  | Warn_stream_checksum_read string
  | Warn_stream_checksum_mismatch string string
  | Warn_stream_unmarshal
  | Warn_stream_add_to_template string string error
  | Warn_stream_recreate string error

text \<open>A step of the recovery ends, or the process panics on a \<^verbatim>\<open>nil\<close> pointer.\<close>

datatype 'a outcome = Done 'a | Panic

text \<open>\<^verbatim>\<open>addStreamNameToTemplate\<close>.\<close>

definition addStreamNameToTemplate ::
  "jsAccount \<Rightarrow> string \<Rightarrow> string \<Rightarrow> error option \<times> jsAccount" where
  "addStreamNameToTemplate jsa tname mname =
     (case templates jsa of
        None \<Rightarrow> (Some ErrTemplateNotFound, jsa)
      | Some ts \<Rightarrow>
          (case ts tname of
             None \<Rightarrow> (Some ErrTemplateNotFound, jsa)
           | Some t \<Rightarrow>
               (None, jsa\<lparr>templates :=
                             Some (ts(tname \<mapsto> t\<lparr>st_streams := st_streams t @ [mname]\<rparr>))\<rparr>)))"

text \<open>
  One round of the loop over the template directories; \<open>name\<close> is \<^verbatim>\<open>fi.Name()\<close>. The
  hasher is the one built before the loop. \<^verbatim>\<open>cfg.Config.Name = _EMPTY_\<close> dereferences
  the decoded pointer.
\<close>

definition recoverTemplate ::
  "recovery \<Rightarrow> string \<Rightarrow> hasher \<Rightarrow> string \<Rightarrow> disk_world
     \<Rightarrow> (disk_world \<times> hasher \<times> warning list) outcome" where
  "recoverTemplate R tdir hh name w =
     (let metafile = path_Join [tdir, name, JetStreamMetaFile];
          metasum = path_Join [tdir, name, JetStreamMetaFileSum]
      in case w_files w metafile of
           NotExist \<Rightarrow> Done (w, hh, [Warn_template_metafile_read metasum])
         | Unreadable \<Rightarrow> Done (w, hh, [Warn_template_metafile_read metasum])
         | Content buf \<Rightarrow>
             (case w_files w metasum of
                NotExist \<Rightarrow> Done (w, hh, [Warn_template_checksum_missing metasum])
              | Unreadable \<Rightarrow> Done (w, hh, [Warn_template_checksum_read metasum])
              | Content hsum \<Rightarrow>
                  let hh1 = hh_Write (hh_Reset hh) buf;
                      checksum = hex_EncodeToString (hh_Sum R hh1)
                  in if checksum \<noteq> hsum
                     then Done (w, hh1, [Warn_template_checksum_mismatch hsum checksum])
                     else
                       (case json_Unmarshal_template R buf of
                          None \<Rightarrow> Done (w, hh1, [Warn_template_unmarshal])
                        | Some cfg \<Rightarrow>
                            (case dt_Config cfg of
                               None \<Rightarrow> Panic
                             | Some sc \<Rightarrow>
                                 let cfg1 = \<lparr>tc_Name = dt_Name cfg,
                                             tc_Config = sc\<lparr>sc_Name := []\<rparr>,
                                             tc_MaxStreams = dt_MaxStreams cfg\<rparr>
                                 in case AddStreamTemplate R cfg1 w of
                                      (Some err, w1) \<Rightarrow>
                                        Done (w1, hh1, [Warn_template_recreate (tc_Name cfg1) err])
                                    | (None, w1) \<Rightarrow> Done (w1, hh1, [])))))"

text \<open>The loop over the listing \<^verbatim>\<open>fis\<close> of the templates directory.\<close>

fun recoverTemplates ::
  "recovery \<Rightarrow> string \<Rightarrow> hasher \<Rightarrow> string list \<Rightarrow> disk_world
     \<Rightarrow> (disk_world \<times> warning list) outcome" where
  "recoverTemplates R tdir hh [] w = Done (w, [])"
| "recoverTemplates R tdir hh (fi # fis) w =
     (case recoverTemplate R tdir hh fi w of
        Panic \<Rightarrow> Panic
      | Done (w1, hh1, l1) \<Rightarrow>
          (case recoverTemplates R tdir hh1 fis w1 of
             Panic \<Rightarrow> Panic
           | Done (w2, l2) \<Rightarrow> Done (w2, l1 @ l2)))"

text \<open>The templates pass: the hasher is keyed with \<^verbatim>\<open>sha256.Sum256([]byte("templates"))\<close>.\<close>

definition recoverTemplateDirs ::
  "recovery \<Rightarrow> string \<Rightarrow> string list \<Rightarrow> disk_world \<Rightarrow> (disk_world \<times> warning list) outcome" where
  "recoverTemplateDirs R tdir fis w =
     recoverTemplates R tdir (highwayhash_New64 (sha256_Sum256 R ''templates'')) fis w"

text \<open>
  One round of the loop over the stream directories. Each round builds its own hasher,
  keyed with the hash of the directory name.
\<close>

definition recoverStream ::
  "recovery \<Rightarrow> string \<Rightarrow> string \<Rightarrow> disk_world \<Rightarrow> disk_world \<times> warning list" where
  "recoverStream R sdir name w =
     (let mdir = path_Join [sdir, name];
          hh = highwayhash_New64 (sha256_Sum256 R name);
          metafile = path_Join [mdir, JetStreamMetaFile];
          metasum = path_Join [mdir, JetStreamMetaFileSum]
      in case w_files w metafile of
           NotExist \<Rightarrow> (w, [Warn_stream_metafile_missing metafile])
         | Unreadable \<Rightarrow> (w, [Warn_stream_metafile_read metasum])
         | Content buf \<Rightarrow>
             (case w_files w metasum of
                NotExist \<Rightarrow> (w, [Warn_stream_checksum_missing metasum])
              | Unreadable \<Rightarrow> (w, [Warn_stream_checksum_read metasum])
              | Content hsum \<Rightarrow>
                  let checksum = hex_EncodeToString (hh_Sum R (hh_Write hh buf))
                  in if checksum \<noteq> hsum
                     then (w, [Warn_stream_checksum_mismatch hsum checksum])
                     else
                       (case json_Unmarshal_stream R buf of
                          None \<Rightarrow> (w, [Warn_stream_unmarshal])
                        | Some cfg \<Rightarrow>
                            let sc = fsi_StreamConfig cfg;
                                (w1, l1) =
                                  (if sc_Template sc \<noteq> []
                                   then case addStreamNameToTemplate (w_jsa w)
                                               (sc_Template sc) (sc_Name sc) of
                                          (Some err, jsa1) \<Rightarrow>
                                            (w\<lparr>w_jsa := jsa1\<rparr>,
                                             [Warn_stream_add_to_template
                                                (sc_Name sc) (sc_Template sc) err])
                                        | (None, jsa1) \<Rightarrow> (w\<lparr>w_jsa := jsa1\<rparr>, [])
                                   else (w, []))
                            in case rec_AddStream R sc w1 of
                                 (Inl err, w2) \<Rightarrow>
                                   (w2, l1 @ [Warn_stream_recreate (sc_Name sc) err])
                               | (Inr mset, w2) \<Rightarrow>
                                   (restore_stream R name cfg mset w2, l1))))"

fun recoverStreams ::
  "recovery \<Rightarrow> string \<Rightarrow> string list \<Rightarrow> disk_world \<Rightarrow> disk_world \<times> warning list" where
  "recoverStreams R sdir [] w = (w, [])"
| "recoverStreams R sdir (fi # fis) w =
     (let (w1, l1) = recoverStream R sdir fi w;
          (w2, l2) = recoverStreams R sdir fis w1
      in (w2, l1 @ l2))"

text \<open>
  The test the recovery makes of a directory, as one predicate: both files are read and
  the content of \<^verbatim>\<open>meta.sum\<close> is the lowercase hex encoding of the keyed hash of the
  bytes of \<^verbatim>\<open>meta.inf\<close>.
\<close>

definition checksum_ok :: "recovery \<Rightarrow> string \<Rightarrow> disk_file \<Rightarrow> disk_file \<Rightarrow> bool" where
  "checksum_ok R key metafile metasum =
     (case metafile of
        Content buf \<Rightarrow>
          (case metasum of
             Content hsum \<Rightarrow> hsum = hex_EncodeToString (highwayhash_Sum64 R key buf)
           | NotExist \<Rightarrow> False
           | Unreadable \<Rightarrow> False)
      | NotExist \<Rightarrow> False
      | Unreadable \<Rightarrow> False)"

text \<open>The state an outcome ends in, if it ends.\<close>

fun world_of :: "(disk_world \<times> warning list) outcome \<Rightarrow> disk_world option" where
  "world_of (Done (w, l)) = Some w"
| "world_of Panic = None"

text \<open>The warnings of a directory that fails the test of its checksum.\<close>

fun is_template_checksum_warning :: "warning \<Rightarrow> bool" where
  "is_template_checksum_warning (Warn_template_metafile_read p) = True"
| "is_template_checksum_warning (Warn_template_checksum_missing p) = True"
| "is_template_checksum_warning (Warn_template_checksum_read p) = True"
| "is_template_checksum_warning (Warn_template_checksum_mismatch a b) = True"
| "is_template_checksum_warning x = False"

fun is_stream_checksum_warning :: "warning \<Rightarrow> bool" where
  "is_stream_checksum_warning (Warn_stream_metafile_missing p) = True"
| "is_stream_checksum_warning (Warn_stream_metafile_read p) = True"
| "is_stream_checksum_warning (Warn_stream_checksum_missing p) = True"
| "is_stream_checksum_warning (Warn_stream_checksum_read p) = True"
| "is_stream_checksum_warning (Warn_stream_checksum_mismatch a b) = True"
| "is_stream_checksum_warning x = False"

section \<open>Example states\<close>

text \<open>
  A server with 4 GiB of memory and 20 GiB of storage for JetStream, every account
  registered, account \<open>0\<close> its system account; and sequences of calls on it.
\<close>

definition zero_jsAccount :: jsAccount where
  "zero_jsAccount =
     \<lparr>account = 0, limits = \<lparr>MaxMemory = 0, MaxStore = 0, MaxStreams = 0, MaxConsumers = 0\<rparr>,
      jsa_memReserved = 0, memUsed = 0, jsa_storeReserved = 0, storeUsed = 0,
      streams = Map.empty, templates = None\<rparr>"

definition example_server :: Server where
  "example_server =
     \<lparr>srv_js = Some \<lparr>config = \<lparr>cfg_MaxMemory = 4294967296, cfg_MaxStore = 21474836480,
                                cfg_StoreDir = ''/tmp/nats/jetstream''\<rparr>,
                      accounts = Map.empty, memReserved = 0, storeReserved = 0\<rparr>,
      sysAccount = Some 0, a_srv = (\<lambda>a. True), a_js = Map.empty,
      jsas = (\<lambda>p. zero_jsAccount), next_jsa = 0\<rparr>"

definition example_ledger :: jetStream where
  "example_ledger =
     \<lparr>config = \<lparr>cfg_MaxMemory = 4294967296, cfg_MaxStore = 21474836480,
                 cfg_StoreDir = ''/tmp/nats/jetstream''\<rparr>,
      accounts = Map.empty, memReserved = 0, storeReserved = 0\<rparr>"

definition example_tail :: enable_tail where
  "example_tail = \<lparr>imports_fail = False, mkdir_fail = False, recovered = zero_jsAccount\<rparr>"

definition example_ops :: "op list" where
  "example_ops =
     [Enable example_tail 1
        (Some \<lparr>MaxMemory = 1073741824, MaxStore = 10737418240, MaxStreams = - 1, MaxConsumers = - 1\<rparr>),
      Update 1
        (Some \<lparr>MaxMemory = 2147483648, MaxStore = 8589934592, MaxStreams = - 1, MaxConsumers = - 1\<rparr>),
      Enable example_tail 2
        (Some \<lparr>MaxMemory = 1073741824, MaxStore = - 1, MaxStreams = - 1, MaxConsumers = - 1\<rparr>),
      Disable 2]"

definition unlimited_ops :: "op list" where
  "unlimited_ops =
     [Enable example_tail 1
        (Some \<lparr>MaxMemory = - 1, MaxStore = - 1, MaxStreams = - 1, MaxConsumers = - 1\<rparr>)]"

definition disabled_server :: Server where
  "disabled_server = example_server\<lparr>srv_js := None\<rparr>"

text \<open>The server after account \<open>1\<close> has been enabled with 1 GiB and 10 GiB.\<close>

definition enabled_example :: Server where
  "enabled_example =
     snd (EnableJetStream example_tail 1
            (Some \<lparr>MaxMemory = 1073741824, MaxStore = 10737418240, MaxStreams = - 1,
                    MaxConsumers = - 1\<rparr>) example_server)"

text \<open>
  A template \<open>T\<close> on the subjects \<open>orders.*\<close> with a cap of two streams, on an
  account without streams; a storage engine that adds every stream it is asked for;
  the state after messages on \<open>orders.new\<close> and \<open>orders.paid\<close>; and the same
  template with a cap of zero.
\<close>

definition example_skeleton :: StreamConfig where
  "example_skeleton =
     \<lparr>sc_Name = [], sc_Subjects = [''orders.*''], sc_MaxConsumers = - 1, sc_MaxBytes = - 1,
      sc_Storage = MemoryStorage, sc_Replicas = 1, sc_Template = []\<rparr>"

definition example_tw :: tmpl_world where
  "example_tw =
     \<lparr>tw_t = \<lparr>st_config = \<lparr>tc_Name = ''T'', tc_Config = example_skeleton, tc_MaxStreams = 2\<rparr>,
              st_streams = []\<rparr>,
      tw_jsa = Some (zero_jsAccount\<lparr>account := 1\<rparr>), tw_a_js = True\<rparr>"

definition toy_AddStream :: "StreamConfig \<Rightarrow> tmpl_world \<Rightarrow> (error + Stream) \<times> tmpl_world" where
  "toy_AddStream cfg w =
     (case tw_jsa w of
        None \<Rightarrow> (Inl ErrJetStreamNotEnabledForAccount, w)
      | Some jsa \<Rightarrow>
          (Inr \<lparr>stream_config = cfg\<rparr>,
           w\<lparr>tw_jsa := Some (jsa\<lparr>streams := (streams jsa)(sc_Name cfg \<mapsto> \<lparr>stream_config = cfg\<rparr>)\<rparr>)\<rparr>))"

definition toy_engine :: engine where
  "toy_engine = \<lparr>AddStream = toy_AddStream,
                  processInboundJetStreamMsg = (\<lambda>mset subject reply msg w. w)\<rparr>"


definition example_tw_zero :: tmpl_world where
  "example_tw_zero =
     example_tw\<lparr>tw_t := \<lparr>st_config = \<lparr>tc_Name = ''T'', tc_Config = example_skeleton,
                                      tc_MaxStreams = 0\<rparr>,
                          st_streams = []\<rparr>\<rparr>"



text \<open>
  A disk with two template directories and two stream directories, and toy
  collaborators: the keyed hash is the first byte of the data, every file decodes, and
  templates and streams are added to the account. Template \<open>A\<close> has a wrong
  checksum, stream \<open>S1\<close> has none.
\<close>

definition toy_recovery :: recovery where
  "toy_recovery =
     \<lparr>sha256_Sum256 = (\<lambda>bs. bs),
      highwayhash_Sum64 = (\<lambda>key bs. take 1 (bs @ key)),
      json_Unmarshal_template =
        (\<lambda>bs. Some \<lparr>dt_Name = bs, dt_Config = Some example_skeleton, dt_MaxStreams = 2\<rparr>),
      json_Unmarshal_stream =
        (\<lambda>bs. Some \<lparr>fsi_Created = 0, fsi_StreamConfig = example_skeleton\<lparr>sc_Name := bs\<rparr>\<rparr>),
      AddStreamTemplate =
        (\<lambda>tc w. (None,
           w\<lparr>w_jsa := (w_jsa w)\<lparr>templates :=
                Some ((case templates (w_jsa w) of None \<Rightarrow> Map.empty | Some ts \<Rightarrow> ts)
                        (tc_Name tc \<mapsto> \<lparr>st_config = tc, st_streams = []\<rparr>))\<rparr>\<rparr>)),
      rec_AddStream =
        (\<lambda>cfg w. (Inr \<lparr>stream_config = cfg\<rparr>,
           w\<lparr>w_jsa := (w_jsa w)\<lparr>streams :=
                (streams (w_jsa w))(sc_Name cfg \<mapsto> \<lparr>stream_config = cfg\<rparr>)\<rparr>\<rparr>)),
      restore_stream = (\<lambda>name info mset w. w)\<rparr>"

definition example_disk :: disk_world where
  "example_disk =
     \<lparr>w_files =
        (\<lambda>p. NotExist)
          (''t/A/meta.inf'' := Content ''alpha'', ''t/A/meta.sum'' := Content ''00'',
           ''t/B/meta.inf'' := Content ''beta'', ''t/B/meta.sum'' := Content ''62'',
           ''s/S1/meta.inf'' := Content ''one'',
           ''s/S2/meta.inf'' := Content ''two'', ''s/S2/meta.sum'' := Content ''74''),
      w_jsa = zero_jsAccount\<lparr>account := 1\<rparr>\<rparr>"


text \<open>
  States at the edge of \<^verbatim>\<open>int64\<close>: the ledger after one account has been enabled with a
  limit of one byte of memory, limits that ask for \<open>2^63 - 1\<close> bytes of memory, and a
  stream configuration of four replicas of \<open>2^62\<close> bytes.
\<close>

definition one_byte_ops :: "op list" where
  "one_byte_ops =
     [Enable example_tail 1
        (Some \<lparr>MaxMemory = 1, MaxStore = 0, MaxStreams = - 1, MaxConsumers = - 1\<rparr>)]"

definition overflow_ledger :: jetStream where
  "overflow_ledger = the (srv_js (run example_server one_byte_ops))"

definition huge_limits :: JetStreamAccountLimits where
  "huge_limits =
     \<lparr>MaxMemory = 9223372036854775807, MaxStore = 0, MaxStreams = - 1, MaxConsumers = - 1\<rparr>"



section \<open>Canonical names\<close>

lemma CanonicalName_no_dot: "CHR ''.'' \<notin> set (CanonicalName s)"
  by (auto simp: CanonicalName_def)

lemma isValidName_iff:
  "isValidName n \<longleftrightarrow> n \<noteq> [] \<and> CHR ''.'' \<notin> set n \<and> CHR ''*'' \<notin> set n \<and> CHR ''>'' \<notin> set n"
  by (auto simp: isValidName_def list_ex_iff)

lemma tokens_from_valid:
  "list_all isValidName (tokens_from tok s) \<Longrightarrow>
     tok @ s \<noteq> [] \<and> CHR ''*'' \<notin> set (tok @ s) \<and> CHR ''>'' \<notin> set (tok @ s)"
proof (induction s arbitrary: tok)
  case Nil
  then show ?case by (simp add: isValidName_iff)
next
  case (Cons c cs)
  show ?case
  proof (cases "c = CHR ''.''")
    case True
    with Cons.prems have t: "isValidName tok" and r: "list_all isValidName (tokens_from [] cs)"
      by simp_all
    from Cons.IH [OF r] t True show ?thesis by (simp add: isValidName_iff)
  next
    case False
    with Cons.prems have "list_all isValidName (tokens_from (tok @ [c]) cs)" by simp
    from Cons.IH [OF this] show ?thesis by simp
  qed
qed

lemma set_CanonicalName:
  "c \<noteq> CHR ''_'' \<Longrightarrow> c \<in> set (CanonicalName s) \<Longrightarrow> c \<in> set s"
  by (auto simp: CanonicalName_def split: if_splits)

text \<open>
  Claim C8. For every string \<open>s\<close>, \<open>CanonicalName s\<close> holds no \<open>.\<close>; and when every
  token of \<open>s\<close> between its \<open>.\<close> separators satisfies \<open>isValidName\<close>, so does
  \<open>CanonicalName s\<close>.
\<close>

theorem CanonicalName_law:
  "CHR ''.'' \<notin> set (CanonicalName s)
   \<and> (list_all isValidName (tokens s) \<longrightarrow> isValidName (CanonicalName s))"
proof (intro conjI impI)
  show "CHR ''.'' \<notin> set (CanonicalName s)" by (rule CanonicalName_no_dot)
next
  assume "list_all isValidName (tokens s)"
  then have h: "s \<noteq> [] \<and> CHR ''*'' \<notin> set s \<and> CHR ''>'' \<notin> set s"
    using tokens_from_valid [of "[]" s] by (simp add: tokens_def)
  have "CanonicalName s \<noteq> []" using h by (simp add: CanonicalName_def)
  moreover have "CHR ''*'' \<notin> set (CanonicalName s)" "CHR ''>'' \<notin> set (CanonicalName s)"
    using h set_CanonicalName [of _ s] by auto
  ultimately show "isValidName (CanonicalName s)"
    by (simp add: isValidName_iff CanonicalName_no_dot)
qed

text \<open>The subject \<open>orders.new\<close> has the valid tokens \<open>orders\<close> and \<open>new\<close>.\<close>

theorem CanonicalName_law_witness:
  "list_all isValidName (tokens ''orders.new'')
   \<and> CanonicalName ''orders.new'' = ''orders_new''
   \<and> CHR ''.'' \<notin> set (CanonicalName ''orders.new'')
   \<and> isValidName (CanonicalName ''orders.new'')"
  using CanonicalName_law [of "''orders.new''"]
  by (simp add: tokens_def isValidName_def CanonicalName_def)


section \<open>The sufficiency check of the ledger\<close>

text \<open>
  Where the sum of two \<^verbatim>\<open>int64\<close> values stays in range, the wrapping sum of the code is
  the sum of the integers.
\<close>

lemma sint_add_exact:
  fixes a b :: int64
  assumes "- (2 ^ 63) \<le> sint a + sint b" "sint a + sint b < 2 ^ 63"
  shows "sint (a + b) = sint a + sint b"
  using assms
  by (simp add: sint_word_ariths signed_take_bit_int_eq_self)

text \<open>The check as the code computes it, with the wrapping sums.\<close>

lemma sufficientResources_wrapping:
  "(sufficientResources js (Some l) = None \<longleftrightarrow>
      memReserved js + MaxMemory l \<le>s cfg_MaxMemory (config js)
      \<and> storeReserved js + MaxStore l \<le>s cfg_MaxStore (config js))
   \<and> (\<not> memReserved js + MaxMemory l \<le>s cfg_MaxMemory (config js)
        \<longrightarrow> sufficientResources js (Some l) = Some ErrInsufficientMemory)
   \<and> (memReserved js + MaxMemory l \<le>s cfg_MaxMemory (config js)
        \<and> \<not> storeReserved js + MaxStore l \<le>s cfg_MaxStore (config js)
        \<longrightarrow> sufficientResources js (Some l) = Some ErrInsufficientStorage)"
  by (auto simp: sufficientResources_def word_sle_eq word_sless_alt)

text \<open>
  Claim C5, as the code has it. For every ledger and limits that are not \<^verbatim>\<open>nil\<close>, and
  whose sums \<open>memReserved + MaxMemory\<close> and \<open>storeReserved + MaxStore\<close> stay in the range
  of \<^verbatim>\<open>int64\<close>, \<open>sufficientResources\<close> returns no error if and only if
  \<open>memReserved + MaxMemory \<le> config.MaxMemory\<close> and
  \<open>storeReserved + MaxStore \<le> config.MaxStore\<close>, as numbers of bytes; when it fails, the
  error names the resource, memory first.
\<close>

theorem sufficientResources_in_range:
  assumes "- (2 ^ 63) \<le> sint (memReserved js) + sint (MaxMemory l)"
    and "sint (memReserved js) + sint (MaxMemory l) < 2 ^ 63"
    and "- (2 ^ 63) \<le> sint (storeReserved js) + sint (MaxStore l)"
    and "sint (storeReserved js) + sint (MaxStore l) < 2 ^ 63"
  shows "(sufficientResources js (Some l) = None \<longleftrightarrow>
            sint (memReserved js) + sint (MaxMemory l) \<le> sint (cfg_MaxMemory (config js))
            \<and> sint (storeReserved js) + sint (MaxStore l) \<le> sint (cfg_MaxStore (config js)))
         \<and> (\<not> sint (memReserved js) + sint (MaxMemory l) \<le> sint (cfg_MaxMemory (config js))
              \<longrightarrow> sufficientResources js (Some l) = Some ErrInsufficientMemory)
         \<and> (sint (memReserved js) + sint (MaxMemory l) \<le> sint (cfg_MaxMemory (config js))
              \<and> \<not> sint (storeReserved js) + sint (MaxStore l) \<le> sint (cfg_MaxStore (config js))
              \<longrightarrow> sufficientResources js (Some l) = Some ErrInsufficientStorage)"
proof -
  have m: "sint (memReserved js + MaxMemory l) = sint (memReserved js) + sint (MaxMemory l)"
    using assms(1,2) by (rule sint_add_exact)
  have s: "sint (storeReserved js + MaxStore l) = sint (storeReserved js) + sint (MaxStore l)"
    using assms(3,4) by (rule sint_add_exact)
  show ?thesis
    using sufficientResources_wrapping [of js l]
    unfolding word_sle_eq m s by blast
qed

text \<open>
  On the ledger of a server with 4 GiB and 20 GiB and nothing reserved: 1 GiB and 10 GiB
  are granted, 8 GiB of memory are refused for the memory, and 1 GiB with 30 GiB of
  storage is refused for the storage.
\<close>

theorem sufficientResources_in_range_witness:
  "sufficientResources example_ledger
     (Some \<lparr>MaxMemory = 1073741824, MaxStore = 10737418240, MaxStreams = - 1,
             MaxConsumers = - 1\<rparr>) = None
   \<and> sufficientResources example_ledger
       (Some \<lparr>MaxMemory = 8589934592, MaxStore = 32212254720, MaxStreams = - 1,
               MaxConsumers = - 1\<rparr>) = Some ErrInsufficientMemory
   \<and> sufficientResources example_ledger
       (Some \<lparr>MaxMemory = 1073741824, MaxStore = 32212254720, MaxStreams = - 1,
               MaxConsumers = - 1\<rparr>) = Some ErrInsufficientStorage"
proof -
  have 1: "sufficientResources example_ledger
     (Some \<lparr>MaxMemory = 1073741824, MaxStore = 10737418240, MaxStreams = - 1,
             MaxConsumers = - 1\<rparr>) = None"
    using sufficientResources_in_range [of example_ledger
      "\<lparr>MaxMemory = 1073741824, MaxStore = 10737418240, MaxStreams = - 1, MaxConsumers = - 1\<rparr>"]
    by (simp add: example_ledger_def)
  have 2: "sufficientResources example_ledger
       (Some \<lparr>MaxMemory = 8589934592, MaxStore = 32212254720, MaxStreams = - 1,
               MaxConsumers = - 1\<rparr>) = Some ErrInsufficientMemory"
    using sufficientResources_in_range [of example_ledger
      "\<lparr>MaxMemory = 8589934592, MaxStore = 32212254720, MaxStreams = - 1, MaxConsumers = - 1\<rparr>"]
    by (simp add: example_ledger_def)
  have 3: "sufficientResources example_ledger
       (Some \<lparr>MaxMemory = 1073741824, MaxStore = 32212254720, MaxStreams = - 1,
               MaxConsumers = - 1\<rparr>) = Some ErrInsufficientStorage"
    using sufficientResources_in_range [of example_ledger
      "\<lparr>MaxMemory = 1073741824, MaxStore = 32212254720, MaxStreams = - 1, MaxConsumers = - 1\<rparr>"]
    by (simp add: example_ledger_def)
  from 1 2 3 show ?thesis by simp
qed

text \<open>
  Without the bound on the sums the statement is false. After one account has been
  enabled with a limit of one byte of memory, a request for \<open>2^63 - 1\<close> bytes is granted
  on a server of 4 GiB: the sum of the code wraps around to a negative number.
\<close>

lemma overflow_ledger_eq:
  "overflow_ledger =
     \<lparr>config = \<lparr>cfg_MaxMemory = 4294967296, cfg_MaxStore = 21474836480,
                 cfg_StoreDir = ''/tmp/nats/jetstream''\<rparr>,
      accounts = [1 \<mapsto> 0], memReserved = 1, storeReserved = 0\<rparr>"
  by (simp add: overflow_ledger_def one_byte_ops_def example_server_def example_tail_def
      zero_jsAccount_def EnableJetStream_def sufficientResources_def reserveResources_def
      Let_def word_sless_alt)

theorem sufficientResources_overflow_counterexample:
  "successful example_server one_byte_ops
   \<and> memReserved overflow_ledger = 1
   \<and> cfg_MaxMemory (config overflow_ledger) = 4294967296
   \<and> MaxMemory huge_limits = 9223372036854775807
   \<and> sufficientResources overflow_ledger (Some huge_limits) = None
   \<and> \<not> sint (memReserved overflow_ledger) + sint (MaxMemory huge_limits)
         \<le> sint (cfg_MaxMemory (config overflow_ledger))"
  by (simp add: overflow_ledger_eq huge_limits_def one_byte_ops_def example_server_def
      example_tail_def zero_jsAccount_def EnableJetStream_def sufficientResources_def
      reserveResources_def Let_def word_sless_alt)


section \<open>The ledger under the account operations\<close>

lemma reserve_fields [simp]:
  "accounts (reserveResources js x) = accounts js"
  "config (reserveResources js x) = config js"
  "memReserved (reserveResources js (Some l)) = memReserved js + counted (MaxMemory l)"
  "storeReserved (reserveResources js (Some l)) = storeReserved js + counted (MaxStore l)"
  by (auto simp: reserveResources_def counted_def Let_def split: option.splits)

lemma release_fields [simp]:
  "accounts (releaseResources js x) = accounts js"
  "config (releaseResources js x) = config js"
  "memReserved (releaseResources js (Some l)) = memReserved js - counted (MaxMemory l)"
  "storeReserved (releaseResources js (Some l)) = storeReserved js - counted (MaxStore l)"
  by (auto simp: releaseResources_def counted_def Let_def split: option.splits)

lemma sum_dom_split:
  fixes f :: "'a \<Rightarrow> int64"
  assumes "finite (dom m)"
  shows "(\<Sum>b\<in>dom m. f b) = (if k \<in> dom m then f k else 0) + (\<Sum>b\<in>dom m - {k}. f b)"
  using assms by (simp add: sum.remove)

lemma sum_dom_change:
  fixes f f' :: "'a \<Rightarrow> int64"
  assumes fin: "finite (dom m)"
    and agree: "\<And>b. b \<noteq> k \<Longrightarrow> m' b = m b"
    and same: "\<And>b. b \<in> dom m \<Longrightarrow> b \<noteq> k \<Longrightarrow> f' b = f b"
  shows "(\<Sum>b\<in>dom m'. f' b) + (if k \<in> dom m then f k else 0)
         = (\<Sum>b\<in>dom m. f b) + (if k \<in> dom m' then f' k else 0)"
proof -
  have d: "dom m' - {k} = dom m - {k}"
    using agree by (auto simp: dom_def)
  have fin': "finite (dom m')"
  proof -
    have "dom m' \<subseteq> insert k (dom m)" using d by auto
    then show ?thesis using fin by (meson finite_insert finite_subset)
  qed
  have r: "(\<Sum>b\<in>dom m - {k}. f' b) = (\<Sum>b\<in>dom m - {k}. f b)"
    by (rule sum.cong) (auto simp: same)
  show ?thesis
    unfolding sum_dom_split [OF fin, of f k] sum_dom_split [OF fin', of f' k] d r
    by simp
qed

lemma fresh_ledger_inv: "fresh_server s \<Longrightarrow> ledger_inv s"
  by (auto simp: fresh_server_def ledger_inv_def limits_total_def split: option.splits)

lemma ledger_invI:
  assumes "srv_js s = Some js" "a_js s = accounts js" "finite (dom (accounts js))"
    "\<And>a p. accounts js a = Some p \<Longrightarrow> p < next_jsa s \<and> account (jsas s p) = a \<and> a_srv s a"
    "memReserved js = (\<Sum>a\<in>dom (accounts js). counted (MaxMemory (enabled_limits s js a)))"
    "storeReserved js = (\<Sum>a\<in>dom (accounts js). counted (MaxStore (enabled_limits s js a)))"
  shows "ledger_inv s"
  using assms by (simp add: ledger_inv_def limits_total_def)

lemma ledger_invD:
  assumes "ledger_inv s"
  obtains js where "srv_js s = Some js" "a_js s = accounts js" "finite (dom (accounts js))"
    "\<And>a p. accounts js a = Some p \<Longrightarrow> p < next_jsa s \<and> account (jsas s p) = a \<and> a_srv s a"
    "memReserved js = (\<Sum>a\<in>dom (accounts js). counted (MaxMemory (enabled_limits s js a)))"
    "storeReserved js = (\<Sum>a\<in>dom (accounts js). counted (MaxStore (enabled_limits s js a)))"
  using assms by (auto simp: ledger_inv_def limits_total_def split: option.splits)

text \<open>
  One account \<open>k\<close> changes: the ledger entries and objects of the others stay, and the
  counters move by what \<open>k\<close> counted before and counts after.
\<close>

lemma ledger_inv_change:
  assumes inv: "ledger_inv s" and js: "srv_js s = Some js"
    and js': "srv_js s' = Some js'"
    and ajs: "a_js s' = accounts js'"
    and agree: "\<And>b. b \<noteq> k \<Longrightarrow> accounts js' b = accounts js b"
    and keep: "\<And>b q. b \<noteq> k \<Longrightarrow> accounts js b = Some q \<Longrightarrow> jsas s' q = jsas s q"
    and nxt: "next_jsa s \<le> next_jsa s'" and srv: "a_srv s' = a_srv s"
    and new: "\<And>p. accounts js' k = Some p \<Longrightarrow>
                 p < next_jsa s' \<and> account (jsas s' p) = k \<and> a_srv s k"
    and mem: "memReserved js' + (if k \<in> dom (accounts js) then counted (MaxMemory (enabled_limits s js k)) else 0)
              = memReserved js + (if k \<in> dom (accounts js') then counted (MaxMemory (enabled_limits s' js' k)) else 0)"
    and sto: "storeReserved js' + (if k \<in> dom (accounts js) then counted (MaxStore (enabled_limits s js k)) else 0)
              = storeReserved js + (if k \<in> dom (accounts js') then counted (MaxStore (enabled_limits s' js' k)) else 0)"
  shows "ledger_inv s'"
proof -
  from inv js have fin: "finite (dom (accounts js))"
    and pts: "\<And>a p. accounts js a = Some p \<Longrightarrow> p < next_jsa s \<and> account (jsas s p) = a \<and> a_srv s a"
    and m0: "memReserved js = (\<Sum>a\<in>dom (accounts js). counted (MaxMemory (enabled_limits s js a)))"
    and s0: "storeReserved js = (\<Sum>a\<in>dom (accounts js). counted (MaxStore (enabled_limits s js a)))"
    by (auto simp: ledger_inv_def limits_total_def)
  have same: "enabled_limits s' js' b = enabled_limits s js b"
    if "b \<in> dom (accounts js)" "b \<noteq> k" for b
    using that agree [of b] keep [of b] by (auto simp: enabled_limits_def)
  have fin': "finite (dom (accounts js'))"
  proof -
    have "dom (accounts js') \<subseteq> insert k (dom (accounts js))"
      using agree by (auto simp: dom_def)
    then show ?thesis using fin by (meson finite_insert finite_subset)
  qed
  have pts': "p < next_jsa s' \<and> account (jsas s' p) = a \<and> a_srv s' a"
    if "accounts js' a = Some p" for a p
  proof (cases "a = k")
    case True
    with that new srv show ?thesis by simp
  next
    case False
    with that agree have "accounts js a = Some p" by simp
    with pts [OF this] keep [OF False this] nxt srv show ?thesis by simp
  qed
  have M: "(\<Sum>b\<in>dom (accounts js'). counted (MaxMemory (enabled_limits s' js' b)))
           + (if k \<in> dom (accounts js) then counted (MaxMemory (enabled_limits s js k)) else 0)
         = (\<Sum>b\<in>dom (accounts js). counted (MaxMemory (enabled_limits s js b)))
           + (if k \<in> dom (accounts js') then counted (MaxMemory (enabled_limits s' js' k)) else 0)"
    by (rule sum_dom_change [OF fin]) (simp_all add: agree same)
  have S: "(\<Sum>b\<in>dom (accounts js'). counted (MaxStore (enabled_limits s' js' b)))
           + (if k \<in> dom (accounts js) then counted (MaxStore (enabled_limits s js k)) else 0)
         = (\<Sum>b\<in>dom (accounts js). counted (MaxStore (enabled_limits s js b)))
           + (if k \<in> dom (accounts js') then counted (MaxStore (enabled_limits s' js' k)) else 0)"
    by (rule sum_dom_change [OF fin]) (simp_all add: agree same)
  have m': "memReserved js' = (\<Sum>a\<in>dom (accounts js'). counted (MaxMemory (enabled_limits s' js' a)))"
  proof -
    from M mem m0 have "memReserved js' + (if k \<in> dom (accounts js) then counted (MaxMemory (enabled_limits s js k)) else 0)
      = (\<Sum>b\<in>dom (accounts js'). counted (MaxMemory (enabled_limits s' js' b)))
        + (if k \<in> dom (accounts js) then counted (MaxMemory (enabled_limits s js k)) else 0)"
      by (simp only:)
    then show ?thesis by (simp only: add_right_cancel)
  qed
  have s': "storeReserved js' = (\<Sum>a\<in>dom (accounts js'). counted (MaxStore (enabled_limits s' js' a)))"
  proof -
    from S sto s0 have "storeReserved js' + (if k \<in> dom (accounts js) then counted (MaxStore (enabled_limits s js k)) else 0)
      = (\<Sum>b\<in>dom (accounts js'). counted (MaxStore (enabled_limits s' js' b)))
        + (if k \<in> dom (accounts js) then counted (MaxStore (enabled_limits s js k)) else 0)"
      by (simp only:)
    then show ?thesis by (simp only: add_right_cancel)
  qed
  show ?thesis
    by (rule ledger_invI [OF js' ajs fin' pts' m' s'])
qed

lemma EnableJetStream_inv:
  assumes inv: "ledger_inv s"
  shows "ledger_inv (snd (EnableJetStream tail a lim s))"
proof -
  from inv obtain js where js: "srv_js s = Some js" and ajs: "a_js s = accounts js"
    by (auto simp: ledger_inv_def split: option.splits)
  define l where "l = (case lim of None \<Rightarrow> dynamicAccountLimits js | Some l \<Rightarrow> l)"
  show ?thesis
  proof (cases "a_srv s a \<and> sysAccount s \<noteq> Some a \<and> accounts js a = None
                \<and> sufficientResources js (Some l) = None")
    case False
    then have "snd (EnableJetStream tail a lim s) = s"
      using js by (auto simp: EnableJetStream_def l_def Let_def split: option.splits)
    with inv show ?thesis by simp
  next
    case True
    define js1 where "js1 = reserveResources (js\<lparr>accounts := (accounts js)(a \<mapsto> next_jsa s)\<rparr>) (Some l)"
    define X where "X = (if imports_fail tail \<or> mkdir_fail tail
         then \<lparr>account = a, limits = l, jsa_memReserved = 0, memUsed = 0,
               jsa_storeReserved = 0, storeUsed = 0, streams = Map.empty, templates = None\<rparr>
         else (recovered tail)\<lparr>account := a, limits := l\<rparr>)"
    have X: "limits X = l" "account X = a"
      by (simp_all add: X_def)
    have res: "snd (EnableJetStream tail a lim s)
                = s\<lparr>srv_js := Some js1, a_js := (a_js s)(a \<mapsto> next_jsa s),
                     jsas := (jsas s)(next_jsa s := X), next_jsa := Suc (next_jsa s)\<rparr>"
      using True js
      by (simp add: EnableJetStream_def l_def js1_def X_def Let_def)
    from inv js have pts: "\<And>b q. accounts js b = Some q \<Longrightarrow> q < next_jsa s"
      by (auto simp: ledger_inv_def)
    show ?thesis
      unfolding res
    proof (rule ledger_inv_change [OF inv js, where k = a and js' = js1])
      show "memReserved js1 + (if a \<in> dom (accounts js) then counted (MaxMemory (enabled_limits s js a)) else 0)
            = memReserved js + (if a \<in> dom (accounts js1)
                then counted (MaxMemory (enabled_limits (s\<lparr>srv_js := Some js1, a_js := (a_js s)(a \<mapsto> next_jsa s),
                     jsas := (jsas s)(next_jsa s := X), next_jsa := Suc (next_jsa s)\<rparr>) js1 a)) else 0)"
        using True X by (simp add: js1_def enabled_limits_def dom_def)
      show "storeReserved js1 + (if a \<in> dom (accounts js) then counted (MaxStore (enabled_limits s js a)) else 0)
            = storeReserved js + (if a \<in> dom (accounts js1)
                then counted (MaxStore (enabled_limits (s\<lparr>srv_js := Some js1, a_js := (a_js s)(a \<mapsto> next_jsa s),
                     jsas := (jsas s)(next_jsa s := X), next_jsa := Suc (next_jsa s)\<rparr>) js1 a)) else 0)"
        using True X by (simp add: js1_def enabled_limits_def dom_def)
    qed (use True X ajs pts in \<open>auto simp: js1_def\<close>)
  qed
qed

lemma UpdateJetStreamLimits_inv:
  assumes inv: "ledger_inv s"
  shows "ledger_inv (snd (UpdateJetStreamLimits a lim s))"
proof -
  from inv obtain js where js: "srv_js s = Some js" and ajs: "a_js s = accounts js"
    and pts: "\<And>b q. accounts js b = Some q \<Longrightarrow> q < next_jsa s \<and> account (jsas s q) = b \<and> a_srv s b"
    by (auto simp: ledger_inv_def split: option.splits)
  define l where "l = (case lim of None \<Rightarrow> dynamicAccountLimits js | Some l \<Rightarrow> l)"
  show ?thesis
  proof (cases "a_srv s a \<and> accounts js a \<noteq> None
                \<and> sufficientResources js (Some (diffCheckedLimits (limits (jsas s (the (accounts js a)))) l)) = None")
    case False
    then have "snd (UpdateJetStreamLimits a lim s) = s"
      using js ajs by (auto simp: UpdateJetStreamLimits_def l_def Let_def split: option.splits)
    with inv show ?thesis by simp
  next
    case True
    then obtain p where p: "accounts js a = Some p" by auto
    define js1 where "js1 = reserveResources (releaseResources js (Some (limits (jsas s p)))) (Some l)"
    have res: "snd (UpdateJetStreamLimits a lim s)
                = s\<lparr>srv_js := Some js1, jsas := (jsas s)(p := (jsas s p)\<lparr>limits := l\<rparr>)\<rparr>"
      using True js ajs p
      by (auto simp: UpdateJetStreamLimits_def l_def js1_def Let_def split: option.splits)
    have inj: "q \<noteq> p" if "b \<noteq> a" "accounts js b = Some q" for b q
      using pts [OF that(2)] pts [OF p] that(1) by auto
    show ?thesis
      unfolding res
    proof (rule ledger_inv_change [OF inv js, where k = a and js' = js1])
      show "memReserved js1 + (if a \<in> dom (accounts js) then counted (MaxMemory (enabled_limits s js a)) else 0)
            = memReserved js + (if a \<in> dom (accounts js1)
                then counted (MaxMemory (enabled_limits (s\<lparr>srv_js := Some js1, jsas := (jsas s)(p := (jsas s p)\<lparr>limits := l\<rparr>)\<rparr>) js1 a)) else 0)"
        using p by (simp add: js1_def enabled_limits_def dom_def)
      show "storeReserved js1 + (if a \<in> dom (accounts js) then counted (MaxStore (enabled_limits s js a)) else 0)
            = storeReserved js + (if a \<in> dom (accounts js1)
                then counted (MaxStore (enabled_limits (s\<lparr>srv_js := Some js1, jsas := (jsas s)(p := (jsas s p)\<lparr>limits := l\<rparr>)\<rparr>) js1 a)) else 0)"
        using p by (simp add: js1_def enabled_limits_def dom_def)
    qed (use p ajs pts inj in \<open>auto simp: js1_def\<close>)
  qed
qed

lemma DisableJetStream_inv:
  assumes inv: "ledger_inv s"
  shows "ledger_inv (snd (DisableJetStream a s))"
proof -
  from inv obtain js where js: "srv_js s = Some js" and ajs: "a_js s = accounts js"
    and pts: "\<And>b q. accounts js b = Some q \<Longrightarrow> q < next_jsa s \<and> account (jsas s q) = b \<and> a_srv s b"
    by (auto simp: ledger_inv_def split: option.splits)
  show ?thesis
  proof (cases "accounts js a")
    case None
    then have "a_js s a = None" using ajs by simp
    then have "(a_js s)(a := None) = a_js s" by (simp add: fun_upd_idem)
    then have "snd (DisableJetStream a s) = s"
      using js None
      by (auto simp: DisableJetStream_def disableJetStream_def lookupAccount_def Let_def
               split: option.splits)
    with inv show ?thesis by simp
  next
    case (Some p)
    define js1 where "js1 = releaseResources (js\<lparr>accounts := (accounts js)(a := None)\<rparr>) (Some (limits (jsas s p)))"
    from pts [OF Some] have acc: "account (jsas s p) = a" and srv: "a_srv s a" by simp_all
    have res: "snd (DisableJetStream a s)
                = s\<lparr>a_js := (a_js s)(a := None), srv_js := Some js1,
                     jsas := (jsas s)(p := (jsas s p)\<lparr>templates := None\<rparr>)\<rparr>"
      using js Some acc srv
      by (simp add: DisableJetStream_def disableJetStream_def lookupAccount_def Let_def js1_def)
    have inj: "q \<noteq> p" if "b \<noteq> a" "accounts js b = Some q" for b q
      using pts [OF that(2)] pts [OF Some] that(1) by auto
    show ?thesis
      unfolding res
    proof (rule ledger_inv_change [OF inv js, where k = a and js' = js1])
      show "memReserved js1 + (if a \<in> dom (accounts js) then counted (MaxMemory (enabled_limits s js a)) else 0)
            = memReserved js + (if a \<in> dom (accounts js1)
                then counted (MaxMemory (enabled_limits (s\<lparr>a_js := (a_js s)(a := None), srv_js := Some js1,
                     jsas := (jsas s)(p := (jsas s p)\<lparr>templates := None\<rparr>)\<rparr>) js1 a)) else 0)"
        using Some by (simp add: js1_def enabled_limits_def dom_def)
      show "storeReserved js1 + (if a \<in> dom (accounts js) then counted (MaxStore (enabled_limits s js a)) else 0)
            = storeReserved js + (if a \<in> dom (accounts js1)
                then counted (MaxStore (enabled_limits (s\<lparr>a_js := (a_js s)(a := None), srv_js := Some js1,
                     jsas := (jsas s)(p := (jsas s p)\<lparr>templates := None\<rparr>)\<rparr>) js1 a)) else 0)"
        using Some by (simp add: js1_def enabled_limits_def dom_def)
    qed (use Some ajs pts inj in \<open>auto simp: js1_def\<close>)
  qed
qed

lemma step_inv: "ledger_inv s \<Longrightarrow> ledger_inv (snd (step s x))"
  by (cases x) (simp_all add: EnableJetStream_inv UpdateJetStreamLimits_inv DisableJetStream_inv)

lemma run_inv: "ledger_inv s \<Longrightarrow> ledger_inv (run s xs)"
  by (induction xs arbitrary: s) (simp_all add: step_inv)

lemmas ledger_eval =
  example_server_def example_tail_def zero_jsAccount_def
  EnableJetStream_def UpdateJetStreamLimits_def DisableJetStream_def disableJetStream_def
  lookupAccount_def sufficientResources_def reserveResources_def releaseResources_def
  diffCheckedLimits_def dynamicAccountLimits_def fresh_server_def Let_def
  word_sless_alt word_sle_eq

text \<open>
  Claim C1, as the code has it. From a freshly enabled server, after any finite sequence
  of successful \<open>EnableJetStream\<close>, \<open>UpdateJetStreamLimits\<close> and \<open>DisableJetStream\<close>
  calls, \<open>memReserved\<close> is the sum over the enabled accounts of the counted part of
  \<open>limits.MaxMemory\<close>, the limit itself if it is positive and \<open>0\<close> otherwise, and
  \<open>storeReserved\<close> is the same sum of \<open>limits.MaxStore\<close>.
\<close>

theorem ledger_accounting:
  assumes "fresh_server s" and "successful s ops"
  shows "\<exists>js. srv_js (run s ops) = Some js
           \<and> memReserved js = limits_total (\<lambda>l. counted (MaxMemory l)) (run s ops) js
           \<and> storeReserved js = limits_total (\<lambda>l. counted (MaxStore l)) (run s ops) js"
proof -
  have "ledger_inv (run s ops)"
    using assms(1) by (simp add: fresh_ledger_inv run_inv)
  then show ?thesis
    by (auto simp: ledger_inv_def split: option.splits)
qed

text \<open>
  An account enabled with 1 GiB and 10 GiB, updated to 2 GiB and 8 GiB, a second account
  enabled without a store limit and disabled again: the ledger holds 2 GiB and 8 GiB.
\<close>

lemma example_fresh: "fresh_server example_server"
  by (simp add: fresh_server_def example_server_def)

lemma example_successful: "successful example_server example_ops"
  by (simp add: example_ops_def ledger_eval)

lemma example_run_js:
  "srv_js (run example_server example_ops) =
     Some \<lparr>config = \<lparr>cfg_MaxMemory = 4294967296, cfg_MaxStore = 21474836480,
                      cfg_StoreDir = ''/tmp/nats/jetstream''\<rparr>,
           accounts = [1 \<mapsto> 0], memReserved = 2147483648, storeReserved = 8589934592\<rparr>"
  by (simp add: example_ops_def ledger_eval)

theorem ledger_accounting_witness:
  "fresh_server example_server \<and> successful example_server example_ops
   \<and> (\<exists>js. srv_js (run example_server example_ops) = Some js
         \<and> memReserved js = 2147483648 \<and> storeReserved js = 8589934592
         \<and> memReserved js
             = limits_total (\<lambda>l. counted (MaxMemory l)) (run example_server example_ops) js
         \<and> storeReserved js
             = limits_total (\<lambda>l. counted (MaxStore l)) (run example_server example_ops) js)"
  using ledger_accounting [OF example_fresh example_successful] example_fresh example_successful
    example_run_js
  by auto

text \<open>
  The sum of the limits themselves is not what the ledger holds: an account enabled
  with the limits \<open>-1\<close>, which stand for no limit, reserves nothing, so the counters
  stay \<open>0\<close> while the limits sum to \<open>-1\<close>.
\<close>

theorem ledger_sum_of_limits_counterexample:
  "fresh_server example_server \<and> successful example_server unlimited_ops
   \<and> memReserved (the (srv_js (run example_server unlimited_ops))) = 0
   \<and> limits_total MaxMemory (run example_server unlimited_ops)
        (the (srv_js (run example_server unlimited_ops))) = - 1
   \<and> storeReserved (the (srv_js (run example_server unlimited_ops))) = 0
   \<and> limits_total MaxStore (run example_server unlimited_ops)
        (the (srv_js (run example_server unlimited_ops))) = - 1"
  by (simp add: unlimited_ops_def ledger_eval limits_total_def enabled_limits_def)


section \<open>Updating the limits of an account, and the system account\<close>

text \<open>
  Claim C4. A successful \<open>UpdateJetStreamLimits\<close> on an account with the limits \<open>old\<close>
  computes the delta over \<open>MaxMemory\<close> and \<open>MaxStore\<close> only, new minus old, passes it
  to the sufficiency check, and replaces the reservation by a release of \<open>old\<close> and a
  reserve of \<open>new\<close>. Afterwards the limits of the account are \<open>new\<close>, the counters of
  the ledger have lost what \<open>old\<close> counted and gained what \<open>new\<close> counts, and
  \<open>memUsed\<close> and \<open>storeUsed\<close> of the account are as before. \<^verbatim>\<open>nil\<close> limits stand for
  the dynamic ones.
\<close>

theorem update_delta:
  assumes ok: "fst (UpdateJetStreamLimits a lim s) = None"
  shows "\<exists>js p. srv_js s = Some js \<and> a_js s a = Some p
    \<and> (let new = (case lim of None \<Rightarrow> dynamicAccountLimits js | Some l \<Rightarrow> l);
            old = limits (jsas s p);
            dl = diffCheckedLimits old new;
            s' = snd (UpdateJetStreamLimits a lim s)
        in dl = \<lparr>MaxMemory = MaxMemory new - MaxMemory old,
                  MaxStore = MaxStore new - MaxStore old,
                  MaxStreams = 0, MaxConsumers = 0\<rparr>
           \<and> sufficientResources js (Some dl) = None
           \<and> srv_js s' = Some (reserveResources (releaseResources js (Some old)) (Some new))
           \<and> memReserved (the (srv_js s'))
               = memReserved js - counted (MaxMemory old) + counted (MaxMemory new)
           \<and> storeReserved (the (srv_js s'))
               = storeReserved js - counted (MaxStore old) + counted (MaxStore new)
           \<and> limits (jsas s' p) = new
           \<and> memUsed (jsas s' p) = memUsed (jsas s p)
           \<and> storeUsed (jsas s' p) = storeUsed (jsas s p)
           \<and> a_js s' = a_js s)"
proof -
  from ok obtain js where js: "srv_js s = Some js"
    by (auto simp: UpdateJetStreamLimits_def split: if_splits option.splits)
  from ok js obtain p where p: "a_js s a = Some p"
    by (auto simp: UpdateJetStreamLimits_def split: if_splits option.splits)
  from ok js p have srv: "a_srv s a"
    by (auto simp: UpdateJetStreamLimits_def split: if_splits)
  define new where "new = (case lim of None \<Rightarrow> dynamicAccountLimits js | Some l \<Rightarrow> l)"
  from ok js p srv have suff:
    "sufficientResources js (Some (diffCheckedLimits (limits (jsas s p)) new)) = None"
    by (auto simp: UpdateJetStreamLimits_def Let_def new_def split: option.splits)
  have res: "snd (UpdateJetStreamLimits a lim s)
      = s\<lparr>srv_js := Some (reserveResources (releaseResources js (Some (limits (jsas s p)))) (Some new)),
           jsas := (jsas s)(p := (jsas s p)\<lparr>limits := new\<rparr>)\<rparr>"
    using js p srv suff by (simp add: UpdateJetStreamLimits_def Let_def new_def)
  show ?thesis
    using js p suff
    unfolding Let_def res new_def [symmetric]
    by (simp add: diffCheckedLimits_def new_def)
qed


text \<open>
  The update of the account from 1 GiB and 10 GiB to 2 GiB and 8 GiB, on the server with
  4 GiB and 20 GiB: the ledger goes from 1 GiB and 10 GiB to 2 GiB and 8 GiB.
\<close>

lemma enabled_example_eq:
  "enabled_example =
     \<lparr>srv_js = Some \<lparr>config = \<lparr>cfg_MaxMemory = 4294967296, cfg_MaxStore = 21474836480,
                                cfg_StoreDir = ''/tmp/nats/jetstream''\<rparr>,
                      accounts = [1 \<mapsto> 0], memReserved = 1073741824,
                      storeReserved = 10737418240\<rparr>,
      sysAccount = Some 0, a_srv = (\<lambda>a. True), a_js = [1 \<mapsto> 0],
      jsas = (\<lambda>p. zero_jsAccount)
               (0 := zero_jsAccount\<lparr>account := 1,
                      limits := \<lparr>MaxMemory = 1073741824, MaxStore = 10737418240,
                                  MaxStreams = - 1, MaxConsumers = - 1\<rparr>\<rparr>),
      next_jsa = Suc 0\<rparr>"
  by (simp add: enabled_example_def ledger_eval)

theorem update_delta_witness:
  "fst (UpdateJetStreamLimits 1
          (Some \<lparr>MaxMemory = 2147483648, MaxStore = 8589934592, MaxStreams = - 1,
                  MaxConsumers = - 1\<rparr>) enabled_example) = None
   \<and> memReserved (the (srv_js (snd (UpdateJetStreamLimits 1
          (Some \<lparr>MaxMemory = 2147483648, MaxStore = 8589934592, MaxStreams = - 1,
                  MaxConsumers = - 1\<rparr>) enabled_example)))) = 2147483648
   \<and> storeReserved (the (srv_js (snd (UpdateJetStreamLimits 1
          (Some \<lparr>MaxMemory = 2147483648, MaxStore = 8589934592, MaxStreams = - 1,
                  MaxConsumers = - 1\<rparr>) enabled_example)))) = 8589934592"
proof -
  have ok: "fst (UpdateJetStreamLimits 1
          (Some \<lparr>MaxMemory = 2147483648, MaxStore = 8589934592, MaxStreams = - 1,
                  MaxConsumers = - 1\<rparr>) enabled_example) = None"
    unfolding enabled_example_eq
    by (simp add: UpdateJetStreamLimits_def sufficientResources_def diffCheckedLimits_def
        Let_def word_sless_alt)
  from update_delta [OF ok] ok show ?thesis
    by (auto simp: enabled_example_eq Let_def counted_def word_sless_alt)
qed

text \<open>
  Claim C9. If \<open>UpdateJetStreamLimits\<close> is called on an enabled account and the
  sufficiency check of the delta fails, the call returns that error and the state is
  the one before the call: the counters of the ledger and the limits of the account
  have not moved.
\<close>

theorem update_rejected_unchanged:
  assumes "a_srv s a" and "srv_js s = Some js" and "a_js s a = Some p"
    and "sufficientResources js
           (Some (diffCheckedLimits (limits (jsas s p))
                    (case lim of None \<Rightarrow> dynamicAccountLimits js | Some l \<Rightarrow> l))) = Some err"
  shows "UpdateJetStreamLimits a lim s = (Some err, s)"
  using assms by (simp add: UpdateJetStreamLimits_def Let_def)

text \<open>An update to 8 GiB of memory on the server with 4 GiB is refused.\<close>

theorem update_rejected_unchanged_witness:
  "a_srv enabled_example 1 \<and> a_js enabled_example 1 = Some 0
   \<and> UpdateJetStreamLimits 1
        (Some \<lparr>MaxMemory = 8589934592, MaxStore = 8589934592, MaxStreams = - 1,
                MaxConsumers = - 1\<rparr>) enabled_example
      = (Some ErrInsufficientMemory, enabled_example)"
proof -
  have 1: "a_srv enabled_example 1" by (simp add: enabled_example_eq)
  have 2: "srv_js enabled_example = Some \<lparr>config = \<lparr>cfg_MaxMemory = 4294967296, cfg_MaxStore = 21474836480,
                                cfg_StoreDir = ''/tmp/nats/jetstream''\<rparr>,
                      accounts = [1 \<mapsto> 0], memReserved = 1073741824,
                      storeReserved = 10737418240\<rparr>"
    by (simp add: enabled_example_eq)
  have 3: "a_js enabled_example 1 = Some 0" by (simp add: enabled_example_eq)
  have 4: "sufficientResources \<lparr>config = \<lparr>cfg_MaxMemory = 4294967296, cfg_MaxStore = 21474836480,
                                cfg_StoreDir = ''/tmp/nats/jetstream''\<rparr>,
                      accounts = [1 \<mapsto> 0], memReserved = 1073741824,
                      storeReserved = 10737418240\<rparr>
           (Some (diffCheckedLimits (limits (jsas enabled_example 0))
                    (case Some \<lparr>MaxMemory = 8589934592, MaxStore = 8589934592, MaxStreams = - 1,
                MaxConsumers = - 1\<rparr> of None \<Rightarrow> dynamicAccountLimits \<lparr>config = \<lparr>cfg_MaxMemory = 4294967296, cfg_MaxStore = 21474836480,
                                cfg_StoreDir = ''/tmp/nats/jetstream''\<rparr>,
                      accounts = [1 \<mapsto> 0], memReserved = 1073741824,
                      storeReserved = 10737418240\<rparr> | Some l \<Rightarrow> l))) = Some ErrInsufficientMemory"
    by (simp add: enabled_example_eq sufficientResources_def diffCheckedLimits_def word_sless_alt)
  from update_rejected_unchanged [OF 1 2 3 4] 1 3 show ?thesis by simp
qed

text \<open>
  Claim C7, as the code has it. \<open>EnableJetStream\<close> on the system account of a server
  returns an error and leaves the state as it was, the ledger and the enabled accounts
  with it. On a server with JetStream the error is the one that forbids the system
  account; on a server without JetStream the earlier check answers that JetStream is
  not enabled.
\<close>

theorem system_account_rejected:
  assumes "sysAccount s = Some a" and "a_srv s a"
  shows "EnableJetStream tail a lim s
         = (Some (if srv_js s = None then ErrJetStreamNotEnabled else ErrSystemAccountForbidden), s)"
  using assms by (auto simp: EnableJetStream_def split: option.splits)

theorem system_account_rejected_witness:
  "sysAccount enabled_example = Some 0 \<and> a_srv enabled_example 0
   \<and> EnableJetStream example_tail 0 None enabled_example
       = (Some ErrSystemAccountForbidden, enabled_example)"
  using system_account_rejected [of enabled_example 0 example_tail None]
  by (simp add: enabled_example_eq)

text \<open>
  On a server without JetStream the call on the system account is answered by the
  check for JetStream, not by the one for the system account.
\<close>

theorem system_account_not_enabled_counterexample:
  "sysAccount disabled_server = Some 0
   \<and> EnableJetStream example_tail 0 None disabled_server
       = (Some ErrJetStreamNotEnabled, disabled_server)
   \<and> fst (EnableJetStream example_tail 0 None disabled_server) \<noteq> Some ErrSystemAccountForbidden"
  by (simp add: disabled_server_def example_server_def EnableJetStream_def)


section \<open>The admission check of a stream\<close>









section \<open>Streams made from a template\<close>


text \<open>
  The template with the cap of two: \<open>orders.new\<close> makes the stream \<open>orders_new\<close>; once
  \<open>orders_new\<close> and \<open>orders_paid\<close> exist, a further \<open>orders.new\<close> is dropped and
  \<open>orders.refund\<close> is at the limit.
\<close>

lemmas dispatch_eval =
  example_tw_def example_skeleton_def toy_engine_def toy_AddStream_def zero_jsAccount_def
  processInboundTemplateMsg_def CanonicalName_def Let_def


lemma template_scenario:
  "st_streams (tw_t (fst (dispatch_all toy_engine example_tw
      [(''orders.new'', [], ''m1''), (''orders.paid'', [], ''m2''), (''orders.refund'', [], ''m3'')])))
     = [''orders_new'', ''orders_paid'']
   \<and> map is_Call_AddStream (snd (dispatch_all toy_engine example_tw
      [(''orders.new'', [], ''m1''), (''orders.paid'', [], ''m2''), (''orders.refund'', [], ''m3'')]))
     = [True, False, True, False, False]
   \<and> last (snd (dispatch_all toy_engine example_tw
      [(''orders.new'', [], ''m1''), (''orders.paid'', [], ''m2''), (''orders.refund'', [], ''m3'')]))
     = Warnf_at_limit 1 ''orders.refund''"
  by (simp add: dispatch_eval)


lemma zero_cap_one:
  assumes "tc_MaxStreams (st_config (tw_t w)) = 0"
  shows "fst (processInboundTemplateMsg eng w subject reply msg) = w
         \<and> list_all is_Warnf_at_limit (snd (processInboundTemplateMsg eng w subject reply msg))"
  using assms
  by (auto simp: processInboundTemplateMsg_def Let_def split: option.splits)

text \<open>
  Claim C10. For a template whose \<open>MaxStreams\<close> is \<open>0\<close>, every message that reaches the
  test of the cap is at the limit: whatever messages arrive, \<open>AddStream\<close> is never
  called, nothing is delivered to a stream, and the state, the streams of the template
  among it, stays as it was.
\<close>

theorem zero_cap_never_creates:
  assumes "tc_MaxStreams (st_config (tw_t w)) = 0"
  shows "fst (dispatch_all eng w ms) = w
         \<and> st_streams (tw_t (fst (dispatch_all eng w ms))) = st_streams (tw_t w)
         \<and> list_all is_Warnf_at_limit (snd (dispatch_all eng w ms))
         \<and> \<not> list_ex is_Call_AddStream (snd (dispatch_all eng w ms))
         \<and> \<not> list_ex is_delivery (snd (dispatch_all eng w ms))"
proof -
  have al: "list_all is_Warnf_at_limit es \<Longrightarrow> \<not> list_ex is_Call_AddStream es \<and> \<not> list_ex is_delivery es" for es
  proof (induction es)
    case Nil
    then show ?case by simp
  next
    case (Cons e es)
    then show ?case by (cases e) simp_all
  qed
  have "fst (dispatch_all eng w ms) = w \<and> list_all is_Warnf_at_limit (snd (dispatch_all eng w ms))"
  proof (induction ms)
    case Nil
    then show ?case by simp
  next
    case (Cons m ms)
    obtain subject reply msg where m: "m = (subject, reply, msg)" by (cases m) auto
    from zero_cap_one [OF assms, of eng subject reply msg] Cons.IH
    show ?case by (auto simp: m split: prod.splits)
  qed
  with al show ?thesis by simp
qed

theorem zero_cap_never_creates_witness:
  "tc_MaxStreams (st_config (tw_t example_tw_zero)) = 0
   \<and> dispatch_all toy_engine example_tw_zero
        [(''orders.new'', [], ''m1''), (''orders.paid'', [], ''m2'')]
      = (example_tw_zero, [Warnf_at_limit 1 ''orders.new'', Warnf_at_limit 1 ''orders.paid''])
   \<and> st_streams (tw_t (fst (dispatch_all toy_engine example_tw_zero
        [(''orders.new'', [], ''m1''), (''orders.paid'', [], ''m2'')]))) = []
   \<and> \<not> list_ex is_Call_AddStream (snd (dispatch_all toy_engine example_tw_zero
        [(''orders.new'', [], ''m1''), (''orders.paid'', [], ''m2'')]))"
proof -
  have z: "tc_MaxStreams (st_config (tw_t example_tw_zero)) = 0"
    by (simp add: example_tw_zero_def)
  have r: "dispatch_all toy_engine example_tw_zero
        [(''orders.new'', [], ''m1''), (''orders.paid'', [], ''m2'')]
      = (example_tw_zero, [Warnf_at_limit 1 ''orders.new'', Warnf_at_limit 1 ''orders.paid''])"
    by (simp add: example_tw_zero_def dispatch_eval)
  have s: "st_streams (tw_t example_tw_zero) = []"
    by (simp add: example_tw_zero_def)
  from zero_cap_never_creates [OF z, of toy_engine
      "[(''orders.new'', [], ''m1''), (''orders.paid'', [], ''m2'')]"] z r s
  show ?thesis by simp
qed


section \<open>Directories that fail their checksum\<close>

lemma hh_Sum_fresh [simp]:
  "hh_Sum R (hh_Write (hh_Reset hh) buf) = highwayhash_Sum64 R (hh_key hh) buf"
  "hh_Sum R (hh_Write (highwayhash_New64 key) buf) = highwayhash_Sum64 R key buf"
  by (simp_all add: hh_Sum_def hh_Write_def hh_Reset_def highwayhash_New64_def)

lemma hh_key_simps [simp]:
  "hh_key (hh_Write hh buf) = hh_key hh"
  "hh_key (hh_Reset hh) = hh_key hh"
  "hh_key (highwayhash_New64 key) = key"
  by (simp_all add: hh_Write_def hh_Reset_def highwayhash_New64_def)

lemma recoverTemplate_skip:
  assumes "\<not> checksum_ok R (hh_key hh)
               (w_files w (path_Join [tdir, name, JetStreamMetaFile]))
               (w_files w (path_Join [tdir, name, JetStreamMetaFileSum]))"
  shows "\<exists>hh1 wn. recoverTemplate R tdir hh name w = Done (w, hh1, [wn])
           \<and> hh_key hh1 = hh_key hh \<and> is_template_checksum_warning wn"
  using assms
  by (auto simp: recoverTemplate_def checksum_ok_def Let_def split: disk_file.splits)

lemma recoverTemplate_key:
  assumes "hh_key h = hh_key h'"
  shows "(recoverTemplate R tdir h name w = Panic \<longrightarrow> recoverTemplate R tdir h' name w = Panic)
       \<and> (\<forall>w1 h1 l1. recoverTemplate R tdir h name w = Done (w1, h1, l1) \<longrightarrow>
             (\<exists>h1'. recoverTemplate R tdir h' name w = Done (w1, h1', l1) \<and> hh_key h1 = hh_key h1'))"
  using assms
  by (auto simp: recoverTemplate_def Let_def split: disk_file.splits option.splits prod.splits)

lemma recoverTemplate_keeps_key:
  "recoverTemplate R tdir h name w = Done (w1, h1, l1) \<Longrightarrow> hh_key h1 = hh_key h"
  by (auto simp: recoverTemplate_def Let_def split: disk_file.splits option.splits prod.splits if_splits)

lemma recoverTemplates_key:
  "hh_key h = hh_key h' \<Longrightarrow> recoverTemplates R tdir h fis w = recoverTemplates R tdir h' fis w"
proof (induction fis arbitrary: h h' w)
  case Nil
  then show ?case by simp
next
  case (Cons fi fis)
  show ?case
  proof (cases "recoverTemplate R tdir h fi w")
    case Panic
    with recoverTemplate_key [OF Cons.prems, of R tdir fi w] show ?thesis by simp
  next
    case (Done r)
    obtain w1 h1 l1 where r: "r = (w1, h1, l1)" by (cases r) auto
    with Done recoverTemplate_key [OF Cons.prems, of R tdir fi w]
    obtain h1' where d': "recoverTemplate R tdir h' fi w = Done (w1, h1', l1)"
      and k: "hh_key h1 = hh_key h1'" by auto
    from Cons.IH [OF k] Done r d' show ?thesis by simp
  qed
qed

lemma recoverTemplates_append:
  "recoverTemplates R tdir hh (xs @ ys) w =
     (case recoverTemplates R tdir hh xs w of
        Panic \<Rightarrow> Panic
      | Done (w1, l1) \<Rightarrow>
          (case recoverTemplates R tdir hh ys w1 of
             Panic \<Rightarrow> Panic
           | Done (w2, l2) \<Rightarrow> Done (w2, l1 @ l2)))"
proof (induction xs arbitrary: hh w)
  case Nil
  then show ?case by (simp split: outcome.splits)
next
  case (Cons x xs)
  show ?case
  proof (cases "recoverTemplate R tdir hh x w")
    case Panic
    then show ?thesis by simp
  next
    case (Done r)
    obtain w1 h1 l1 where r: "r = (w1, h1, l1)" by (cases r) auto
    from Done r have k: "hh_key h1 = hh_key hh" by (auto dest: recoverTemplate_keeps_key)
    have sw: "recoverTemplates R tdir hh ys w' = recoverTemplates R tdir h1 ys w'" for w'
      using recoverTemplates_key [OF k] by simp
    show ?thesis
      using Done r Cons.IH [of h1 w1]
      by (simp add: sw split: outcome.splits prod.splits)
  qed
qed

lemma recoverTemplates_skip:
  assumes "\<not> checksum_ok R (hh_key hh)
               (w_files w (path_Join [tdir, fi, JetStreamMetaFile]))
               (w_files w (path_Join [tdir, fi, JetStreamMetaFileSum]))"
  shows "\<exists>wn. is_template_checksum_warning wn
          \<and> recoverTemplates R tdir hh (fi # post) w =
              (case recoverTemplates R tdir hh post w of
                 Panic \<Rightarrow> Panic
               | Done (w2, l2) \<Rightarrow> Done (w2, wn # l2))"
proof -
  from recoverTemplate_skip [OF assms] obtain hh1 wn where
    d: "recoverTemplate R tdir hh fi w = Done (w, hh1, [wn])" and k: "hh_key hh1 = hh_key hh"
    and wn: "is_template_checksum_warning wn" by blast
  have "recoverTemplates R tdir hh1 post w = recoverTemplates R tdir hh post w"
    by (rule recoverTemplates_key [OF k])
  with d wn show ?thesis
    by (auto split: outcome.splits)
qed

lemma recoverStream_skip:
  assumes "\<not> checksum_ok R (sha256_Sum256 R name)
               (w_files w (path_Join [path_Join [sdir, name], JetStreamMetaFile]))
               (w_files w (path_Join [path_Join [sdir, name], JetStreamMetaFileSum]))"
  shows "\<exists>wn. recoverStream R sdir name w = (w, [wn]) \<and> is_stream_checksum_warning wn"
  using assms
  by (auto simp: recoverStream_def checksum_ok_def Let_def split: disk_file.splits)

lemma recoverStreams_append:
  "recoverStreams R sdir (xs @ ys) w =
     (let (w1, l1) = recoverStreams R sdir xs w;
          (w2, l2) = recoverStreams R sdir ys w1
      in (w2, l1 @ l2))"
  by (induction xs arbitrary: w) (auto split: prod.splits)

text \<open>
  Claim C2. When the turn of a template directory comes and its \<^verbatim>\<open>meta.sum\<close> is
  missing, or differs from the lowercase hex encoding of the HighwayHash of the bytes of
  \<^verbatim>\<open>meta.inf\<close> under the key \<open>SHA-256("templates")\<close>, the directory is skipped with one
  warning: the recovery goes on with the directories after it from the state it was
  in, and ends as it would without that directory. The same holds for a stream
  directory, with the key \<open>SHA-256\<close> of the name of the directory.
\<close>

theorem checksum_skip:
  "(recoverTemplateDirs R tdir pre w = Done (w1, l1)
      \<and> \<not> checksum_ok R (sha256_Sum256 R ''templates'')
              (w_files w1 (path_Join [tdir, fi, JetStreamMetaFile]))
              (w_files w1 (path_Join [tdir, fi, JetStreamMetaFileSum]))
     \<longrightarrow> (\<exists>wn. is_template_checksum_warning wn
            \<and> recoverTemplateDirs R tdir (pre @ fi # post) w =
                (case recoverTemplateDirs R tdir post w1 of
                   Panic \<Rightarrow> Panic
                 | Done (w2, l2) \<Rightarrow> Done (w2, l1 @ wn # l2)))
         \<and> recoverTemplateDirs R tdir (pre @ post) w =
             (case recoverTemplateDirs R tdir post w1 of
                Panic \<Rightarrow> Panic
              | Done (w2, l2) \<Rightarrow> Done (w2, l1 @ l2)))
   \<and> (recoverStreams R sdir pre' v = (v1, k1)
      \<and> \<not> checksum_ok R (sha256_Sum256 R fi')
              (w_files v1 (path_Join [path_Join [sdir, fi'], JetStreamMetaFile]))
              (w_files v1 (path_Join [path_Join [sdir, fi'], JetStreamMetaFileSum]))
     \<longrightarrow> (\<exists>wn. is_stream_checksum_warning wn
            \<and> recoverStreams R sdir (pre' @ fi' # post') v =
                (fst (recoverStreams R sdir post' v1),
                 k1 @ wn # snd (recoverStreams R sdir post' v1)))
         \<and> recoverStreams R sdir (pre' @ post') v =
             (fst (recoverStreams R sdir post' v1), k1 @ snd (recoverStreams R sdir post' v1)))"
proof (intro conjI impI)
  assume a: "recoverTemplateDirs R tdir pre w = Done (w1, l1)
      \<and> \<not> checksum_ok R (sha256_Sum256 R ''templates'')
              (w_files w1 (path_Join [tdir, fi, JetStreamMetaFile]))
              (w_files w1 (path_Join [tdir, fi, JetStreamMetaFileSum]))"
  let ?hh = "highwayhash_New64 (sha256_Sum256 R ''templates'')"
  from a have pre: "recoverTemplates R tdir ?hh pre w = Done (w1, l1)"
    by (simp add: recoverTemplateDirs_def)
  from a have "\<not> checksum_ok R (hh_key ?hh)
              (w_files w1 (path_Join [tdir, fi, JetStreamMetaFile]))
              (w_files w1 (path_Join [tdir, fi, JetStreamMetaFileSum]))"
    by simp
  from recoverTemplates_skip [OF this, of post] obtain wn where
    wn: "is_template_checksum_warning wn"
    and sk: "recoverTemplates R tdir ?hh (fi # post) w1 =
              (case recoverTemplates R tdir ?hh post w1 of
                 Panic \<Rightarrow> Panic
               | Done (w2, l2) \<Rightarrow> Done (w2, wn # l2))" by blast
  have "recoverTemplateDirs R tdir (pre @ fi # post) w =
                (case recoverTemplateDirs R tdir post w1 of
                   Panic \<Rightarrow> Panic
                 | Done (w2, l2) \<Rightarrow> Done (w2, l1 @ wn # l2))"
    unfolding recoverTemplateDirs_def recoverTemplates_append [of R tdir ?hh pre "fi # post" w] pre
    by (simp add: sk del: recoverTemplates.simps split: outcome.splits)
  with wn show "\<exists>wn. is_template_checksum_warning wn
            \<and> recoverTemplateDirs R tdir (pre @ fi # post) w =
                (case recoverTemplateDirs R tdir post w1 of
                   Panic \<Rightarrow> Panic
                 | Done (w2, l2) \<Rightarrow> Done (w2, l1 @ wn # l2))" by blast
  show "recoverTemplateDirs R tdir (pre @ post) w =
             (case recoverTemplateDirs R tdir post w1 of
                Panic \<Rightarrow> Panic
              | Done (w2, l2) \<Rightarrow> Done (w2, l1 @ l2))"
    unfolding recoverTemplateDirs_def recoverTemplates_append [of R tdir ?hh pre post w] pre
    by simp
next
  assume b: "recoverStreams R sdir pre' v = (v1, k1)
      \<and> \<not> checksum_ok R (sha256_Sum256 R fi')
              (w_files v1 (path_Join [path_Join [sdir, fi'], JetStreamMetaFile]))
              (w_files v1 (path_Join [path_Join [sdir, fi'], JetStreamMetaFileSum]))"
  then have pre: "recoverStreams R sdir pre' v = (v1, k1)" by simp
  from b recoverStream_skip [of R fi' v1 sdir] obtain wn where
    sk: "recoverStream R sdir fi' v1 = (v1, [wn])" and wn: "is_stream_checksum_warning wn"
    by blast
  have "recoverStreams R sdir (pre' @ fi' # post') v =
                (fst (recoverStreams R sdir post' v1),
                 k1 @ wn # snd (recoverStreams R sdir post' v1))"
    unfolding recoverStreams_append [of R sdir pre' "fi' # post'" v] pre
    by (simp add: sk split: prod.splits)
  with wn show "\<exists>wn. is_stream_checksum_warning wn
            \<and> recoverStreams R sdir (pre' @ fi' # post') v =
                (fst (recoverStreams R sdir post' v1),
                 k1 @ wn # snd (recoverStreams R sdir post' v1))" by blast
  show "recoverStreams R sdir (pre' @ post') v =
             (fst (recoverStreams R sdir post' v1), k1 @ snd (recoverStreams R sdir post' v1))"
    unfolding recoverStreams_append [of R sdir pre' post' v] pre
    by (simp split: prod.splits)
qed

text \<open>
  Template \<open>A\<close> with a wrong checksum before the sound template \<open>B\<close>, and stream
  \<open>S1\<close> without a checksum before the sound stream \<open>S2\<close>.
\<close>

lemma hex_62: "hex_EncodeToString ''b'' = ''62''" "hex_EncodeToString ''a'' = ''61''"
  by (simp_all add: hex_EncodeToString_def hexdigit_def)

lemmas recovery_eval =
  toy_recovery_def example_disk_def example_skeleton_def zero_jsAccount_def
  recoverTemplateDirs_def recoverTemplate_def recoverStream_def checksum_ok_def
  hex_EncodeToString_def hexdigit_def JetStreamMetaFile_def JetStreamMetaFileSum_def
  highwayhash_New64_def hh_Reset_def hh_Write_def hh_Sum_def addStreamNameToTemplate_def Let_def

lemma example_disk_hyps:
  "recoverTemplateDirs toy_recovery ''t'' [] example_disk = Done (example_disk, [])"
  "\<not> checksum_ok toy_recovery (sha256_Sum256 toy_recovery ''templates'')
        (w_files example_disk (path_Join [''t'', ''A'', JetStreamMetaFile]))
        (w_files example_disk (path_Join [''t'', ''A'', JetStreamMetaFileSum]))"
  "recoverStreams toy_recovery ''s'' [] example_disk = (example_disk, [])"
  "\<not> checksum_ok toy_recovery (sha256_Sum256 toy_recovery ''S1'')
        (w_files example_disk (path_Join [path_Join [''s'', ''S1''], JetStreamMetaFile]))
        (w_files example_disk (path_Join [path_Join [''s'', ''S1''], JetStreamMetaFileSum]))"
  by (simp_all add: recovery_eval)

lemma example_disk_templates:
  "world_of (recoverTemplateDirs toy_recovery ''t'' [''A'', ''B''] example_disk)
     = Some (example_disk\<lparr>w_jsa := (w_jsa example_disk)\<lparr>templates :=
          Some [''beta'' \<mapsto> \<lparr>st_config = \<lparr>tc_Name = ''beta'', tc_Config = example_skeleton,
                                            tc_MaxStreams = 2\<rparr>, st_streams = []\<rparr>]\<rparr>\<rparr>)"
  by (simp add: recovery_eval)

theorem checksum_skip_witness:
  "recoverTemplateDirs toy_recovery ''t'' [] example_disk = Done (example_disk, [])
   \<and> \<not> checksum_ok toy_recovery (sha256_Sum256 toy_recovery ''templates'')
        (w_files example_disk (path_Join [''t'', ''A'', JetStreamMetaFile]))
        (w_files example_disk (path_Join [''t'', ''A'', JetStreamMetaFileSum]))
   \<and> world_of (recoverTemplateDirs toy_recovery ''t'' [''A'', ''B''] example_disk)
       = world_of (recoverTemplateDirs toy_recovery ''t'' [''B''] example_disk)
   \<and> recoverStreams toy_recovery ''s'' [] example_disk = (example_disk, [])
   \<and> \<not> checksum_ok toy_recovery (sha256_Sum256 toy_recovery ''S1'')
        (w_files example_disk (path_Join [path_Join [''s'', ''S1''], JetStreamMetaFile]))
        (w_files example_disk (path_Join [path_Join [''s'', ''S1''], JetStreamMetaFileSum]))
   \<and> fst (recoverStreams toy_recovery ''s'' [''S1'', ''S2''] example_disk)
       = fst (recoverStreams toy_recovery ''s'' [''S2''] example_disk)"
proof -
  note h = example_disk_hyps
  note T = checksum_skip [of toy_recovery "''t''" "[]" example_disk example_disk "[]" "''A''"
      "[''B'']" "''s''" "[]" example_disk example_disk "[]" "''S1''" "[''S2'']"]
  from T h have t: "\<exists>wn. recoverTemplateDirs toy_recovery ''t'' ([] @ ''A'' # [''B'']) example_disk =
                (case recoverTemplateDirs toy_recovery ''t'' [''B''] example_disk of
                   Panic \<Rightarrow> Panic
                 | Done (w2, l2) \<Rightarrow> Done (w2, [] @ wn # l2))"
    and t': "recoverTemplateDirs toy_recovery ''t'' ([] @ [''B'']) example_disk =
             (case recoverTemplateDirs toy_recovery ''t'' [''B''] example_disk of
                Panic \<Rightarrow> Panic
              | Done (w2, l2) \<Rightarrow> Done (w2, [] @ l2))"
    and s: "\<exists>wn. recoverStreams toy_recovery ''s'' ([] @ ''S1'' # [''S2'']) example_disk =
                (fst (recoverStreams toy_recovery ''s'' [''S2''] example_disk),
                 [] @ wn # snd (recoverStreams toy_recovery ''s'' [''S2''] example_disk))"
    by blast+
  from t have 1: "world_of (recoverTemplateDirs toy_recovery ''t'' [''A'', ''B''] example_disk)
       = world_of (recoverTemplateDirs toy_recovery ''t'' [''B''] example_disk)"
    by (cases "recoverTemplateDirs toy_recovery ''t'' [''B''] example_disk") auto
  from s have 2: "fst (recoverStreams toy_recovery ''s'' [''S1'', ''S2''] example_disk)
       = fst (recoverStreams toy_recovery ''s'' [''S2''] example_disk)"
    by auto
  from 1 2 h show ?thesis by simp
qed

end
